theory Spec2Isabelle
  imports Main
begin

section \<open>Data model\<close>

text \<open>
  Time. A \<open>date\<close> is a day number (day 0 is 1970-01-01) and an instant is a number
  of seconds since the start of day 0. An aware datetime, as \<open>tz.localize\<close> returns
  it, is the wall-clock reading in seconds together with the UTC offset in force.
  Python adds a \<open>timedelta\<close> to an aware datetime on the wall clock and keeps the
  offset; it compares aware datetimes, and Django compares a datetime column with one,
  on the UTC instant; \<open>.date()\<close> is the wall-clock day.

  Python's dates run from 0001-01-01 (\<open>min_day\<close>) to 9999-12-31 (\<open>max_day\<close>), and
  adding a \<open>timedelta\<close> raises \<open>OverflowError\<close> when the wall-clock result leaves
  that range.
\<close>

type_synonym date = int

record aware_datetime =
  wall :: int
  utcoffset :: int

definition instant :: "aware_datetime \<Rightarrow> int" where
  "instant dt = wall dt - utcoffset dt"

definition plus_minutes :: "aware_datetime \<Rightarrow> int \<Rightarrow> aware_datetime" where
  "plus_minutes dt m = dt\<lparr>wall := wall dt + 60 * m\<rparr>"

definition date_of :: "aware_datetime \<Rightarrow> date" where
  "date_of dt = wall dt div 86400"

definition min_day :: date where
  "min_day = - 719162"

definition max_day :: date where
  "max_day = 2932896"

definition datetime_in_range :: "aware_datetime \<Rightarrow> bool" where
  "datetime_in_range dt = (min_day * 86400 \<le> wall dt \<and> wall dt < (max_day + 1) * 86400)"

text \<open>
  The organizer (a user with its profile). \<open>getattr(profile, name, default)\<close> reads an
  attribute that may be absent: \<open>None\<close> is the absent attribute.
\<close>

record organizer =
  user_id :: nat
  email :: string
  reasonable_hours_start :: "int option"
  reasonable_hours_end :: "int option"

text \<open>
  The event type. \<open>slot_interval_minutes\<close> may be \<open>None\<close>;
  \<open>can_book_on_date\<close> and \<open>get_rrule_object\<close> are methods of the model class,
  taken as fields (\<open>rrule_object\<close> is what \<open>get_rrule_object()\<close> returns).
\<close>

record event_type =
  et_id :: nat
  duration :: int
  slot_interval_minutes :: "int option"
  max_attendees :: int
  recurrence_type :: string
  rrule_object :: "string option"
  can_book_on_date :: "date \<Rightarrow> bool"

text \<open>A booking row; its interval is a pair of UTC instants.\<close>

record booking =
  b_organizer :: nat
  b_event_type :: nat
  status :: string
  b_start_time :: int
  b_end_time :: int
  attendee_count :: int

record slot =
  start_time :: aware_datetime
  end_time :: aware_datetime
  duration_minutes :: int
  available_spots :: int

record recurring_exception =
  x_event_type :: nat
  exception_date :: date
  exception_type :: string
  new_start_time :: "int option"

record cache_entry =
  c_organizer :: nat
  c_event_type :: nat
  c_date :: date
  c_timezone_name :: string
  c_attendee_count :: int
  available_slots :: "slot list"
  computed_at :: int
  expires_at :: int
  is_dirty :: bool
  computation_time_ms :: int

record profile =
  p_pk :: nat
  p_user :: organizer
  p_timezone_name :: string

text \<open>
  The tables the code reads and writes, in row order, and the log of
  \<open>invalidate_availability_cache\<close> (the count it reports and the organizer's email).
\<close>

record database =
  bookings :: "booking list"
  cache_entries :: "cache_entry list"
  recurring_exceptions :: "recurring_exception list"
  profiles :: "profile list"
  invalidation_log :: "(nat \<times> string) list"

text \<open>
  What a call reads from outside the tables: the time-zone database of \<open>pytz\<close>
  (a zone name gives, when the zone exists, the UTC offset that \<open>localize\<close>
  assigns to a naive wall-clock reading), the setting
  \<open>AVAILABILITY_CACHE_TIMEOUT\<close> when it is set, and the clock:
  \<open>now\<close> is \<open>timezone.now()\<close> as read when the call starts and looks the cache
  up, \<open>now_done\<close> as read once the slots are computed.
\<close>

record environment =
  tzdb :: "string \<Rightarrow> (int \<Rightarrow> int) option"
  availability_cache_timeout :: "int option"
  now :: int
  now_done :: int

text \<open>\<open>AvailabilityCalculator.__init__\<close>: the three attributes of the calculator.\<close>

record calculator =
  calc_organizer :: organizer
  calc_event_type :: event_type
  timezone_name :: string

datatype error = ValueError | UnknownTimeZoneError | MultipleObjectsReturned | OverflowError

section \<open>Conflict check\<close>

text \<open>
  Modelled from the spec: \<open>EventType.is_group_event\<close> is a method of the model class,
  which is not among the sources; the spec calls a group event one with capacity
  greater than one.
\<close>

definition is_group_event :: "event_type \<Rightarrow> bool" where
  "is_group_event et = (max_attendees et > 1)"

text \<open>
  The query of \<open>_is_slot_available\<close>:
  \<open>Booking.objects.filter(organizer=..., status='confirmed', start_time__lt=end_time,
  end_time__gt=start_time)\<close>. Rows are compared with the organizer by primary key.
\<close>

definition conflicting_bookings ::
  "database \<Rightarrow> calculator \<Rightarrow> aware_datetime \<Rightarrow> aware_datetime \<Rightarrow> booking list" where
  "conflicting_bookings db c st en =
     filter (\<lambda>b. b_organizer b = user_id (calc_organizer c)
                \<and> status b = ''confirmed''
                \<and> b_start_time b < instant en
                \<and> b_end_time b > instant st) (bookings db)"

definition is_slot_available ::
  "database \<Rightarrow> calculator \<Rightarrow> aware_datetime \<Rightarrow> aware_datetime \<Rightarrow> int \<Rightarrow> bool" where
  "is_slot_available db c st en n =
     (let conflicting = conflicting_bookings db c st en in
      if is_group_event (calc_event_type c)
      then (let total_attendees = sum_list (map attendee_count conflicting)
            in total_attendees + n \<le> max_attendees (calc_event_type c))
      else conflicting = [])"

section \<open>Slot generation for one date\<close>

text \<open>
  \<open>getattr(obj, name, default)\<close> on an attribute that may be absent, and
  \<open>x or default\<close> on an integer that may be \<open>None\<close>: Python takes the default
  when \<open>x\<close> is \<open>None\<close> or 0.
\<close>

definition getattr_default :: "'a option \<Rightarrow> 'a \<Rightarrow> 'a" where
  "getattr_default attr dflt = (case attr of None \<Rightarrow> dflt | Some v \<Rightarrow> v)"

definition or_default :: "int option \<Rightarrow> int \<Rightarrow> int" where
  "or_default x dflt =
     (case x of None \<Rightarrow> dflt | Some v \<Rightarrow> if v = 0 then dflt else v)"

definition hour_ok :: "int \<Rightarrow> bool" where
  "hour_ok h = (0 \<le> h \<and> h \<le> 23)"

definition combine :: "date \<Rightarrow> int \<Rightarrow> int" where
  "combine d hour = d * 86400 + hour * 3600"

definition localize :: "(int \<Rightarrow> int) \<Rightarrow> int \<Rightarrow> aware_datetime" where
  "localize tz naive = \<lparr>wall = naive, utcoffset = tz naive\<rparr>"

definition make_slot :: "calculator \<Rightarrow> aware_datetime \<Rightarrow> aware_datetime \<Rightarrow> slot" where
  "make_slot c current_time slot_end_time =
     \<lparr>start_time = current_time, end_time = slot_end_time,
      duration_minutes = duration (calc_event_type c),
      available_spots = max_attendees (calc_event_type c)\<rparr>"

text \<open>
  The \<open>while\<close> loop of \<open>_get_daily_slots\<close>. Each turn adds the duration to
  \<open>current_time\<close> for the test and, when the test holds, the interval for the next
  turn; either sum raises \<open>OverflowError\<close> when it leaves Python's range, which ends
  the loop for a negative interval. Only an interval of 0 (which
  \<open>_get_daily_slots\<close> never passes) can keep the loop running for ever:
  \<open>None\<close> is the loop that does not return.
\<close>

partial_function (option) daily_loop ::
  "database \<Rightarrow> calculator \<Rightarrow> int \<Rightarrow> int \<Rightarrow> aware_datetime \<Rightarrow> aware_datetime
     \<Rightarrow> slot list \<Rightarrow> (error + slot list) option" where
  "daily_loop db c n slot_interval en current_time slots =
     (if \<not> datetime_in_range (plus_minutes current_time (duration (calc_event_type c)))
      then Some (Inl OverflowError)
      else if instant (plus_minutes current_time (duration (calc_event_type c))) \<le> instant en
      then (let slot_end_time = plus_minutes current_time (duration (calc_event_type c));
                appended = (if is_slot_available db c current_time slot_end_time n
                            then slots @ [make_slot c current_time slot_end_time]
                            else slots)
            in if \<not> datetime_in_range (plus_minutes current_time slot_interval)
               then Some (Inl OverflowError)
               else daily_loop db c n slot_interval en
                      (plus_minutes current_time slot_interval) appended)
      else Some (Inr slots))"

text \<open>
  \<open>_get_daily_slots\<close>. \<open>time.replace(hour=h)\<close> raises \<open>ValueError\<close> unless
  \<open>0 \<le> h \<le> 23\<close>; \<open>pytz.timezone\<close> raises \<open>UnknownTimeZoneError\<close> for an unknown
  zone.
\<close>

definition get_daily_slots ::
  "environment \<Rightarrow> database \<Rightarrow> calculator \<Rightarrow> date \<Rightarrow> int \<Rightarrow> (error + slot list) option" where
  "get_daily_slots env db c d n =
     (let start_hour = getattr_default (reasonable_hours_start (calc_organizer c)) 9;
          end_hour = getattr_default (reasonable_hours_end (calc_organizer c)) 17;
          slot_interval = or_default (slot_interval_minutes (calc_event_type c)) 30
      in if \<not> hour_ok start_hour \<or> \<not> hour_ok end_hour then Some (Inl ValueError)
         else (case tzdb env (timezone_name c) of
                 None \<Rightarrow> Some (Inl UnknownTimeZoneError)
               | Some tz \<Rightarrow>
                   daily_loop db c n slot_interval
                     (localize tz (combine d end_hour))
                     (localize tz (combine d start_hour)) []))"

section \<open>Slot generation over a date range\<close>

text \<open>
  The \<open>while current_date <= end_date\<close> loop of \<open>_calculate_availability\<close>; an
  exception of \<open>_get_daily_slots\<close> leaves the loop, and so does the
  \<open>OverflowError\<close> of \<open>current_date += timedelta(days=1)\<close> on the last day of
  Python's range.
\<close>

function calculate_loop ::
  "environment \<Rightarrow> database \<Rightarrow> calculator \<Rightarrow> date \<Rightarrow> int \<Rightarrow> date \<Rightarrow> slot list
     \<Rightarrow> (error + slot list) option" where
  "calculate_loop env db c end_date n current_date slots =
     (if current_date \<le> end_date
      then (if can_book_on_date (calc_event_type c) current_date
            then (case get_daily_slots env db c current_date n of
                    None \<Rightarrow> None
                  | Some (Inl e) \<Rightarrow> Some (Inl e)
                  | Some (Inr daily_slots) \<Rightarrow>
                      if current_date + 1 > max_day then Some (Inl OverflowError)
                      else calculate_loop env db c end_date n (current_date + 1)
                             (slots @ daily_slots))
            else if current_date + 1 > max_day then Some (Inl OverflowError)
                 else calculate_loop env db c end_date n (current_date + 1) slots)
      else Some (Inr slots))"
  by pat_completeness auto
termination
  by (relation "measure (\<lambda>(env, db, c, end_date, n, current_date, slots).
                   nat (end_date + 1 - current_date))") auto

definition calculate_availability ::
  "environment \<Rightarrow> database \<Rightarrow> calculator \<Rightarrow> date \<Rightarrow> date \<Rightarrow> int
     \<Rightarrow> (error + slot list) option" where
  "calculate_availability env db c start_date end_date n =
     calculate_loop env db c end_date n start_date []"

section \<open>Recurrence\<close>

text \<open>
  \<open>_apply_recurring_logic\<close>: without a rule object the slots are returned; with one,
  the placeholder returns them too.
\<close>

definition apply_recurring_logic ::
  "calculator \<Rightarrow> slot list \<Rightarrow> date \<Rightarrow> date \<Rightarrow> slot list" where
  "apply_recurring_logic c slots start_date end_date =
     (if rrule_object (calc_event_type c) = None then slots else slots)"

text \<open>One turn of the \<open>for exception in exceptions\<close> loop.\<close>

definition apply_exception :: "slot list \<Rightarrow> recurring_exception \<Rightarrow> slot list" where
  "apply_exception slots ex =
     (if exception_type ex = ''cancelled''
      then filter (\<lambda>s. date_of (start_time s) \<noteq> exception_date ex) slots
      else if exception_type ex = ''rescheduled'' \<and> new_start_time ex \<noteq> None
      then slots
      else slots)"

definition apply_recurring_exceptions ::
  "database \<Rightarrow> calculator \<Rightarrow> slot list \<Rightarrow> date \<Rightarrow> date \<Rightarrow> slot list" where
  "apply_recurring_exceptions db c slots start_date end_date =
     (if recurrence_type (calc_event_type c) = ''none'' then slots
      else (let exceptions =
                  filter (\<lambda>x. x_event_type x = et_id (calc_event_type c)
                             \<and> exception_date x \<ge> start_date
                             \<and> exception_date x \<le> end_date)
                    (recurring_exceptions db)
            in foldl apply_exception slots exceptions))"

section \<open>The availability cache\<close>

text \<open>
  The dictionary \<open>get_available_slots\<close> returns; \<open>error\<close> is absent
  (\<open>None\<close>) unless an exception was caught, and \<open>pm_cached_at\<close> is present on a
  cache hit only.
\<close>

record result =
  slots :: "slot list"
  total_slots :: nat
  cache_hit :: bool
  error :: "error option"
  pm_computation_time_ms :: int
  pm_cache_used :: bool
  pm_cached_at :: "int option"

text \<open>The five key fields of a cache row, as both cache queries give them.\<close>

definition cache_key_matches :: "calculator \<Rightarrow> date \<Rightarrow> int \<Rightarrow> cache_entry \<Rightarrow> bool" where
  "cache_key_matches c start_date n e =
     (c_organizer e = user_id (calc_organizer c)
      \<and> c_event_type e = et_id (calc_event_type c)
      \<and> c_date e = start_date
      \<and> c_timezone_name e = timezone_name c
      \<and> c_attendee_count e = n)"

text \<open>
  \<open>_get_cached_availability\<close>. \<open>objects.get\<close> returns the only row that matches,
  raises \<open>DoesNotExist\<close> (caught here: \<open>None\<close>) when there is none and
  \<open>MultipleObjectsReturned\<close> (not caught here) when there are several.
\<close>

definition get_cached_availability ::
  "environment \<Rightarrow> database \<Rightarrow> calculator \<Rightarrow> date \<Rightarrow> date \<Rightarrow> int
     \<Rightarrow> error + result option" where
  "get_cached_availability env db c start_date end_date n =
     (case filter (\<lambda>e. cache_key_matches c start_date n e
                        \<and> is_dirty e = False
                        \<and> expires_at e > now env) (cache_entries db) of
        [] \<Rightarrow> Inr None
      | [cache_entry] \<Rightarrow>
          Inr (Some \<lparr>slots = available_slots cache_entry,
                     total_slots = length (available_slots cache_entry),
                     cache_hit = True,
                     error = None,
                     pm_computation_time_ms = computation_time_ms cache_entry,
                     pm_cache_used = True,
                     pm_cached_at = Some (computed_at cache_entry)\<rparr>)
      | _ \<Rightarrow> Inl MultipleObjectsReturned)"

text \<open>
  \<open>_cache_availability_result\<close>. \<open>update_or_create\<close> looks the row up by the five
  key fields: it updates the only match, creates the row when there is none, and raises
  \<open>MultipleObjectsReturned\<close> when there are several, which this function catches and
  logs, leaving the table as it was.
\<close>

definition cache_availability_result ::
  "environment \<Rightarrow> database \<Rightarrow> calculator \<Rightarrow> date \<Rightarrow> date \<Rightarrow> int \<Rightarrow> result \<Rightarrow> int
     \<Rightarrow> database" where
  "cache_availability_result env db c start_date end_date n res computation_time =
     (let cache_timeout = (case availability_cache_timeout env of
                             None \<Rightarrow> 3600 | Some t \<Rightarrow> t);
          expires = now_done env + cache_timeout
      in case filter (cache_key_matches c start_date n) (cache_entries db) of
           [] \<Rightarrow>
             db\<lparr>cache_entries := cache_entries db @
                  [\<lparr>c_organizer = user_id (calc_organizer c),
                    c_event_type = et_id (calc_event_type c),
                    c_date = start_date,
                    c_timezone_name = timezone_name c,
                    c_attendee_count = n,
                    available_slots = slots res,
                    computed_at = now_done env,
                    expires_at = expires,
                    is_dirty = False,
                    computation_time_ms = computation_time\<rparr>]\<rparr>
         | [_] \<Rightarrow>
             db\<lparr>cache_entries :=
                  map (\<lambda>e. if cache_key_matches c start_date n e
                           then e\<lparr>available_slots := slots res,
                                  computed_at := now_done env,
                                  expires_at := expires,
                                  is_dirty := False,
                                  computation_time_ms := computation_time\<rparr>
                           else e) (cache_entries db)\<rparr>
         | _ \<Rightarrow> db)"

section \<open>The query\<close>

text \<open>The dictionary of the \<open>except Exception\<close> branch.\<close>

definition error_result :: "environment \<Rightarrow> error \<Rightarrow> bool \<Rightarrow> result" where
  "error_result env e use_cache =
     \<lparr>slots = [], total_slots = 0, cache_hit = False, error = Some e,
      pm_computation_time_ms = (now_done env - now env) * 1000,
      pm_cache_used = use_cache, pm_cached_at = None\<rparr>"

text \<open>
  \<open>get_available_slots\<close> returns its dictionary and leaves the tables as the second
  component says; \<open>None\<close> is the call that does not return.
\<close>

definition get_available_slots ::
  "environment \<Rightarrow> database \<Rightarrow> calculator \<Rightarrow> date \<Rightarrow> date \<Rightarrow> int \<Rightarrow> bool
     \<Rightarrow> (result \<times> database) option" where
  "get_available_slots env db c start_date end_date n use_cache =
     (case (if use_cache then get_cached_availability env db c start_date end_date n
            else Inr None) of
        Inl e \<Rightarrow> Some (error_result env e use_cache, db)
      | Inr (Some cached_result) \<Rightarrow> Some (cached_result, db)
      | Inr None \<Rightarrow>
          (case calculate_availability env db c start_date end_date n of
             None \<Rightarrow> None
           | Some (Inl e) \<Rightarrow> Some (error_result env e use_cache, db)
           | Some (Inr calculated) \<Rightarrow>
               (let recurring =
                      (if recurrence_type (calc_event_type c) \<noteq> ''none''
                       then apply_recurring_logic c calculated start_date end_date
                       else calculated);
                    final = apply_recurring_exceptions db c recurring start_date end_date;
                    computation_time = (now_done env - now env) * 1000;
                    res = \<lparr>slots = final, total_slots = length final,
                           cache_hit = False, error = None,
                           pm_computation_time_ms = computation_time,
                           pm_cache_used = use_cache, pm_cached_at = None\<rparr>
                in Some (res,
                         if use_cache
                         then cache_availability_result env db c start_date end_date n
                                res computation_time
                         else db))))"

section \<open>Invalidation\<close>

text \<open>The rows \<open>invalidate_availability_cache\<close> selects: \<open>if date_start:\<close> and
  \<open>if date_end:\<close> add a bound when the date is given.\<close>

definition invalidation_selects ::
  "organizer \<Rightarrow> date option \<Rightarrow> date option \<Rightarrow> cache_entry \<Rightarrow> bool" where
  "invalidation_selects org date_start date_end e =
     (c_organizer e = user_id org
      \<and> (case date_start of None \<Rightarrow> True | Some s \<Rightarrow> c_date e \<ge> s)
      \<and> (case date_end of None \<Rightarrow> True | Some t \<Rightarrow> c_date e \<le> t))"

text \<open>
  \<open>invalidate_availability_cache\<close>: \<open>update(is_dirty=True)\<close> on the selected rows,
  then a log line with \<open>cache_entries.count()\<close>, which runs the query again on the
  updated table. The function has no \<open>return\<close> statement: its value, the second
  component, is Python's \<open>None\<close>.
\<close>

definition invalidate_availability_cache ::
  "database \<Rightarrow> organizer \<Rightarrow> date option \<Rightarrow> date option \<Rightarrow> database \<times> nat option" where
  "invalidate_availability_cache db org date_start date_end =
     (let updated = db\<lparr>cache_entries :=
                         map (\<lambda>e. if invalidation_selects org date_start date_end e
                                  then e\<lparr>is_dirty := True\<rparr> else e)
                           (cache_entries db)\<rparr>;
          count = length (filter (invalidation_selects org date_start date_end)
                            (cache_entries updated))
      in (updated\<lparr>invalidation_log := invalidation_log updated @ [(count, email org)]\<rparr>,
          None))"

text \<open>
  \<open>_invalidate_cache_for_blocked_time\<close> (availability signals): the three attributes
  are read with \<open>getattr(..., None)\<close>.
\<close>

record blocked_time =
  bt_start_date :: "date option"
  bt_end_date :: "date option"
  bt_organizer :: "organizer option"

definition invalidate_cache_for_blocked_time :: "database \<Rightarrow> blocked_time \<Rightarrow> database" where
  "invalidate_cache_for_blocked_time db blocked =
     (case bt_organizer blocked of
        None \<Rightarrow> db
      | Some org \<Rightarrow>
          fst (invalidate_availability_cache db org (bt_start_date blocked)
                 (bt_end_date blocked)))"

text \<open>
  \<open>handle_profile_timezone_change\<close> (users signals), the \<open>post_save\<close> receiver of
  \<open>Profile\<close>. \<open>update_fields\<close> is \<open>None\<close> or a collection of field names, and is
  falsy when \<open>None\<close> or empty. \<open>Profile.objects.get(pk=...)\<close> gives the stored row,
  and \<open>DoesNotExist\<close> is passed over.
\<close>

definition handle_profile_timezone_change ::
  "database \<Rightarrow> profile \<Rightarrow> string list option \<Rightarrow> database" where
  "handle_profile_timezone_change db inst update_fields =
     (let given = (case update_fields of None \<Rightarrow> False | Some fs \<Rightarrow> fs \<noteq> [])
      in if given \<and> ''timezone_name'' \<in> set (case update_fields of None \<Rightarrow> [] | Some fs \<Rightarrow> fs)
         then fst (invalidate_availability_cache db (p_user inst) None None)
         else if \<not> given
         then (case find (\<lambda>p. p_pk p = p_pk inst) (profiles db) of
                 None \<Rightarrow> db
               | Some old_instance \<Rightarrow>
                   if p_timezone_name old_instance \<noteq> p_timezone_name inst
                   then fst (invalidate_availability_cache db (p_user inst) None None)
                   else db)
         else db)"

section \<open>The time grid of the specification\<close>

text \<open>
  The specification's TimeGrid, in its words: intervals of exactly the duration,
  starting every interval from the working-hours start, stopping once start plus
  duration exceeds the working-hours end. \<open>grid_count window d i\<close> is the number of
  starts \<open>k * i\<close> with \<open>k * i + d \<le> window\<close>, for a positive \<open>i\<close>.
\<close>

definition grid_count :: "int \<Rightarrow> int \<Rightarrow> int \<Rightarrow> nat" where
  "grid_count window d i = (if d > window then 0 else nat ((window - d) div i + 1))"

definition time_grid ::
  "aware_datetime \<Rightarrow> aware_datetime \<Rightarrow> int \<Rightarrow> int
     \<Rightarrow> (aware_datetime \<times> aware_datetime) list" where
  "time_grid working_start working_end dur interval =
     map (\<lambda>k. (plus_minutes working_start (int k * interval),
               plus_minutes working_start (int k * interval + dur)))
       [0 ..< grid_count (instant working_end - instant working_start)
                (60 * dur) (60 * interval)]"

text \<open>
  The loop walks the time grid without leaving Python's range: every sum it forms is a
  datetime Python can represent, that is each start plus the duration, up to the start
  at which the loop stops, and each start after the first.
\<close>

definition grid_in_range ::
  "aware_datetime \<Rightarrow> aware_datetime \<Rightarrow> int \<Rightarrow> int \<Rightarrow> bool" where
  "grid_in_range working_start working_end dur interval =
     (list_all (\<lambda>k. datetime_in_range
                       (plus_minutes working_start (int k * interval + dur)))
        [0 ..< Suc (length (time_grid working_start working_end dur interval))]
      \<and> list_all (\<lambda>k. datetime_in_range
                          (plus_minutes working_start (int (Suc k) * interval)))
           [0 ..< length (time_grid working_start working_end dur interval)])"

text \<open>The half-open overlap test of the specification, on a booking row.\<close>

definition half_open_overlap :: "booking \<Rightarrow> aware_datetime \<Rightarrow> aware_datetime \<Rightarrow> bool" where
  "half_open_overlap b candidate_start candidate_end =
     (b_start_time b < instant candidate_end \<and> b_end_time b > instant candidate_start)"

text \<open>The usable entry of the specification: not dirty and not yet expired.\<close>

definition usable :: "int \<Rightarrow> cache_entry \<Rightarrow> bool" where
  "usable t e = (is_dirty e = False \<and> t < expires_at e)"

text \<open>The key of a cache row.\<close>

definition cache_key :: "cache_entry \<Rightarrow> nat \<times> nat \<times> date \<times> string \<times> int" where
  "cache_key e =
     (c_organizer e, c_event_type e, c_date e, c_timezone_name e, c_attendee_count e)"

section \<open>Scenarios\<close>

text \<open>
  Concrete inputs: the zone UTC, an organizer with the default working hours
  (09:00 to 17:00), a single-attendee and a group event type of 30 minutes every 30
  minutes, and a wall-clock reading in UTC.
\<close>

definition utc_env :: environment where
  "utc_env = \<lparr>tzdb = (\<lambda>name. if name = ''UTC'' then Some (\<lambda>_. 0) else None),
              availability_cache_timeout = None, now = 1000, now_done = 1002\<rparr>"

definition alice :: organizer where
  "alice = \<lparr>user_id = 1, email = ''alice@example.com'',
            reasonable_hours_start = None, reasonable_hours_end = None\<rparr>"

definition consultation :: event_type where
  "consultation = \<lparr>et_id = 1, duration = 30, slot_interval_minutes = Some 30,
                   max_attendees = 1, recurrence_type = ''none'', rrule_object = None,
                   can_book_on_date = (\<lambda>_. True)\<rparr>"

definition workshop :: event_type where
  "workshop = \<lparr>et_id = 2, duration = 30, slot_interval_minutes = Some 30,
               max_attendees = 5, recurrence_type = ''none'', rrule_object = None,
               can_book_on_date = (\<lambda>_. True)\<rparr>"

definition utc_time :: "date \<Rightarrow> int \<Rightarrow> int \<Rightarrow> aware_datetime" where
  "utc_time d h m = \<lparr>wall = d * 86400 + h * 3600 + m * 60, utcoffset = 0\<rparr>"

definition empty_db :: database where
  "empty_db = \<lparr>bookings = [], cache_entries = [], recurring_exceptions = [],
               profiles = [], invalidation_log = []\<rparr>"

definition consultation_calc :: calculator where
  "consultation_calc = \<lparr>calc_organizer = alice, calc_event_type = consultation,
                        timezone_name = ''UTC''\<rparr>"

definition workshop_calc :: calculator where
  "workshop_calc = \<lparr>calc_organizer = alice, calc_event_type = workshop,
                    timezone_name = ''UTC''\<rparr>"

text \<open>
  Alice has one confirmed booking on day 0: a workshop (event type 2) with three
  attendees from 14:00 to 14:30.
\<close>

definition workshop_booking :: booking where
  "workshop_booking = \<lparr>b_organizer = 1, b_event_type = 2, status = ''confirmed'',
                       b_start_time = 50400, b_end_time = 52200, attendee_count = 3\<rparr>"

definition workshop_db :: database where
  "workshop_db = empty_db\<lparr>bookings := [workshop_booking]\<rparr>"

text \<open>
  Beside the workshop, a confirmed consultation (event type 1) of Alice with two
  attendees in the same half hour.
\<close>

definition consultation_booking :: booking where
  "consultation_booking = \<lparr>b_organizer = 1, b_event_type = 1, status = ''confirmed'',
                           b_start_time = 50400, b_end_time = 52200, attendee_count = 2\<rparr>"

definition mixed_db :: database where
  "mixed_db = empty_db\<lparr>bookings := [workshop_booking, consultation_booking]\<rparr>"

text \<open>
  A weekly class of Alice (event type 3) with two exceptions: day 0 is cancelled, and
  day 1 is rescheduled to 15:00. Its slots are 10:00 to 10:30 on days 0, 1 and 2.
\<close>

definition weekly_class :: event_type where
  "weekly_class = \<lparr>et_id = 3, duration = 30, slot_interval_minutes = Some 30,
                   max_attendees = 1, recurrence_type = ''weekly'', rrule_object = None,
                   can_book_on_date = (\<lambda>_. True)\<rparr>"

definition weekly_calc :: calculator where
  "weekly_calc = \<lparr>calc_organizer = alice, calc_event_type = weekly_class,
                  timezone_name = ''UTC''\<rparr>"

definition class_slot :: "date \<Rightarrow> slot" where
  "class_slot d = \<lparr>start_time = utc_time d 10 0, end_time = utc_time d 10 30,
                   duration_minutes = 30, available_spots = 1\<rparr>"

definition cancelled_day0 :: recurring_exception where
  "cancelled_day0 = \<lparr>x_event_type = 3, exception_date = 0,
                     exception_type = ''cancelled'', new_start_time = None\<rparr>"

definition rescheduled_day1 :: recurring_exception where
  "rescheduled_day1 = \<lparr>x_event_type = 3, exception_date = 1,
                       exception_type = ''rescheduled'',
                       new_start_time = Some (86400 + 15 * 3600)\<rparr>"

definition weekly_db :: database where
  "weekly_db = empty_db\<lparr>recurring_exceptions := [cancelled_day0, rescheduled_day1]\<rparr>"

text \<open>
  A cache table with three clean rows (event type 1, UTC, one attendee): Alice's day 5,
  Alice's day 9, and day 6 of another organizer (user 2); and a blocked time of Alice
  from day 5 to day 7.
\<close>

definition cached :: "nat \<Rightarrow> date \<Rightarrow> int \<Rightarrow> cache_entry" where
  "cached org d expires =
     \<lparr>c_organizer = org, c_event_type = 1, c_date = d, c_timezone_name = ''UTC'',
      c_attendee_count = 1, available_slots = [class_slot d], computed_at = 0,
      expires_at = expires, is_dirty = False, computation_time_ms = 7\<rparr>"

definition cache_db :: database where
  "cache_db =
     empty_db\<lparr>cache_entries := [cached 1 5 4600, cached 1 9 4600, cached 2 6 4600]\<rparr>"

definition blocked_5_to_7 :: blocked_time where
  "blocked_5_to_7 =
     \<lparr>bt_start_date = Some 5, bt_end_date = Some 7, bt_organizer = Some alice\<rparr>"

text \<open>Alice's stored profile, in the zone UTC, beside that cache table.\<close>

definition alice_profile :: profile where
  "alice_profile = \<lparr>p_pk = 10, p_user = alice, p_timezone_name = ''UTC''\<rparr>"

definition profile_db :: database where
  "profile_db = cache_db\<lparr>profiles := [alice_profile]\<rparr>"

text \<open>
  The slot number \<open>k\<close> of a day of half hours from 09:00, three consultations that
  break the configuration rules (a duration of 0 minutes, an interval of 0 minutes, an
  interval of a year backwards), and a cache table whose only row, Alice's day 5,
  expired at 900.
\<close>

definition half_hour_slot :: "date \<Rightarrow> int \<Rightarrow> slot" where
  "half_hour_slot d k = \<lparr>start_time = utc_time d 9 (30 * k), end_time = utc_time d 9 (30 * k + 30),
                         duration_minutes = 30, available_spots = 1\<rparr>"

definition zero_duration_calc :: calculator where
  "zero_duration_calc = consultation_calc\<lparr>calc_event_type := consultation\<lparr>duration := 0\<rparr>\<rparr>"

definition zero_interval_calc :: calculator where
  "zero_interval_calc =
     consultation_calc\<lparr>calc_event_type := consultation\<lparr>slot_interval_minutes := Some 0\<rparr>\<rparr>"

definition backwards_calc :: calculator where
  "backwards_calc =
     consultation_calc\<lparr>calc_event_type :=
                          consultation\<lparr>slot_interval_minutes := Some (- 525600)\<rparr>\<rparr>"

definition stale_db :: database where
  "stale_db = empty_db\<lparr>cache_entries := [cached 1 5 900]\<rparr>"

section \<open>The conflict check\<close>

text \<open>
  Claim C2, as stated, at a concrete input: Alice's only confirmed booking belongs to
  the workshop (event type 2), so no confirmed booking of the same organizer and the
  same event type overlaps the consultation slot 14:00 to 14:30 (event type 1); the
  code still finds the slot taken.
\<close>

theorem same_event_type_counterexample:
  "\<not> (is_slot_available workshop_db consultation_calc (utc_time 0 14 0) (utc_time 0 14 30) 1
       = (filter (\<lambda>b. status b = ''confirmed''
                     \<and> b_organizer b = user_id (calc_organizer consultation_calc)
                     \<and> b_event_type b = et_id (calc_event_type consultation_calc)
                     \<and> half_open_overlap b (utc_time 0 14 0) (utc_time 0 14 30))
            (bookings workshop_db) = []))"
  by (simp add: is_slot_available_def conflicting_bookings_def is_group_event_def
        workshop_db_def empty_db_def workshop_booking_def consultation_calc_def
        consultation_def alice_def utc_time_def instant_def half_open_overlap_def)

text \<open>
  Claim C2, amended: the decision looks at the confirmed bookings of the same organizer,
  of any event type, that overlap the candidate under the half-open test; for a
  single-attendee event type the candidate is available exactly when no such booking
  exists.
\<close>

theorem single_attendee_rule:
  assumes "\<not> is_group_event (calc_event_type c)"
  shows "is_slot_available db c st en n =
           (\<forall>b \<in> set (bookings db).
              status b = ''confirmed'' \<and> b_organizer b = user_id (calc_organizer c)
                \<longrightarrow> \<not> half_open_overlap b st en)"
  using assms
  by (auto simp: is_slot_available_def conflicting_bookings_def half_open_overlap_def
        filter_empty_conv)

text \<open>
  The rule at work: with the workshop booked from 14:00 to 14:30, the consultation slot
  at 14:00 is taken and the one at 14:30 is free.
\<close>

theorem single_attendee_rule_witness:
  "\<not> is_group_event (calc_event_type consultation_calc)
   \<and> \<not> is_slot_available workshop_db consultation_calc (utc_time 0 14 0) (utc_time 0 14 30) 1
   \<and> is_slot_available workshop_db consultation_calc (utc_time 0 14 30) (utc_time 0 15 0) 1"
proof -
  have g: "\<not> is_group_event (calc_event_type consultation_calc)"
    by (simp add: is_group_event_def consultation_calc_def consultation_def)
  show ?thesis
    using g single_attendee_rule [OF g, of workshop_db "utc_time 0 14 0" "utc_time 0 14 30" 1]
      single_attendee_rule [OF g, of workshop_db "utc_time 0 14 30" "utc_time 0 15 0" 1]
    by (simp add: workshop_db_def empty_db_def workshop_booking_def consultation_calc_def
          alice_def utc_time_def instant_def half_open_overlap_def)
qed

text \<open>
  Claim C3, as stated, at a concrete input: the workshop (capacity 5) has one confirmed
  booking of three attendees from 14:00 to 14:30, and Alice has a confirmed consultation
  of two attendees in the same half hour. The bookings of the same organizer and the
  same event type sum to 3, so one more attendee would fit (3 + 1 \<le> 5); the code
  counts the consultation too (5 + 1 > 5) and finds the slot taken.
\<close>

theorem same_event_type_capacity_counterexample:
  "\<not> (is_slot_available mixed_db workshop_calc (utc_time 0 14 0) (utc_time 0 14 30) 1
       = ((\<Sum>b \<leftarrow> filter (\<lambda>b. status b = ''confirmed''
                               \<and> b_organizer b = user_id (calc_organizer workshop_calc)
                               \<and> b_event_type b = et_id (calc_event_type workshop_calc)
                               \<and> half_open_overlap b (utc_time 0 14 0) (utc_time 0 14 30))
                     (bookings mixed_db).
             attendee_count b) + 1
          \<le> max_attendees (calc_event_type workshop_calc)))"
  by (simp add: is_slot_available_def conflicting_bookings_def is_group_event_def
        mixed_db_def empty_db_def workshop_booking_def consultation_booking_def
        workshop_calc_def workshop_def alice_def utc_time_def instant_def
        half_open_overlap_def)

text \<open>
  Claim C3, amended: for a group event type, a candidate is available exactly when the
  attendee counts of the overlapping confirmed bookings of the same organizer, of any
  event type, plus the requested count, do not exceed \<open>max_attendees\<close>.
\<close>

theorem group_capacity_rule:
  assumes "is_group_event (calc_event_type c)"
  shows "is_slot_available db c st en n =
           ((\<Sum>b \<leftarrow> filter (\<lambda>b. status b = ''confirmed''
                                 \<and> b_organizer b = user_id (calc_organizer c)
                                 \<and> half_open_overlap b st en) (bookings db).
               attendee_count b) + n
            \<le> max_attendees (calc_event_type c))"
proof -
  have "conflicting_bookings db c st en =
          filter (\<lambda>b. status b = ''confirmed'' \<and> b_organizer b = user_id (calc_organizer c)
                     \<and> half_open_overlap b st en) (bookings db)"
    unfolding conflicting_bookings_def half_open_overlap_def
    by (rule filter_cong) auto
  then show ?thesis using assms by (simp add: is_slot_available_def)
qed

text \<open>
  Scenario C: capacity 5 and three attendees booked from 14:00 to 14:30; two more fit,
  three more do not.
\<close>

theorem group_capacity_rule_witness:
  "is_group_event (calc_event_type workshop_calc)
   \<and> is_slot_available workshop_db workshop_calc (utc_time 0 14 0) (utc_time 0 14 30) 2
   \<and> \<not> is_slot_available workshop_db workshop_calc (utc_time 0 14 0) (utc_time 0 14 30) 3"
proof -
  have g: "is_group_event (calc_event_type workshop_calc)"
    by (simp add: is_group_event_def workshop_calc_def workshop_def)
  show ?thesis
    using g group_capacity_rule [OF g, of workshop_db "utc_time 0 14 0" "utc_time 0 14 30" 2]
      group_capacity_rule [OF g, of workshop_db "utc_time 0 14 0" "utc_time 0 14 30" 3]
    by (simp add: workshop_db_def empty_db_def workshop_booking_def workshop_calc_def
          workshop_def alice_def utc_time_def instant_def half_open_overlap_def)
qed

section \<open>Recurring-event exceptions\<close>

lemma apply_exception_filter:
  "apply_exception ss x =
     filter (\<lambda>s. exception_type x = ''cancelled''
                 \<longrightarrow> date_of (start_time s) \<noteq> exception_date x) ss"
  by (simp add: apply_exception_def)

lemma foldl_apply_exception:
  "foldl apply_exception ss xs =
     filter (\<lambda>s. \<forall>x \<in> set xs. exception_type x = ''cancelled''
                    \<longrightarrow> date_of (start_time s) \<noteq> exception_date x) ss"
proof (induction xs arbitrary: ss)
  case Nil
  then show ?case by simp
next
  case (Cons x xs)
  have "foldl apply_exception ss (x # xs) = foldl apply_exception (apply_exception ss x) xs"
    by simp
  also have "\<dots> = filter (\<lambda>s. \<forall>y \<in> set xs. exception_type y = ''cancelled''
                    \<longrightarrow> date_of (start_time s) \<noteq> exception_date y) (apply_exception ss x)"
    by (rule Cons.IH)
  also have "\<dots> = filter (\<lambda>s. \<forall>y \<in> set (x # xs). exception_type y = ''cancelled''
                    \<longrightarrow> date_of (start_time s) \<noteq> exception_date y) ss"
    unfolding apply_exception_filter filter_filter
    by (rule filter_cong) auto
  finally show ?case .
qed

text \<open>
  Claim C7 at a concrete input: day 1 of the weekly class is rescheduled to 15:00, and
  the slots handed in come back as they were: the 10:00 slot of day 1 stays and no slot
  starts at 15:00 (day 0, which is cancelled, is not among them).
\<close>

theorem rescheduled_exception_ignored:
  "apply_recurring_exceptions weekly_db weekly_calc [class_slot 1, class_slot 2] 0 6
     = [class_slot 1, class_slot 2]"
  by (simp add: apply_recurring_exceptions_def apply_exception_def weekly_db_def
        empty_db_def weekly_calc_def weekly_class_def cancelled_day0_def
        rescheduled_day1_def class_slot_def utc_time_def date_of_def)

text \<open>
  Claim C8: applying the exceptions is the identity when the recurrence type is
  \<open>none\<close>, and applying them twice over the same date range gives what applying
  them once gives.
\<close>

theorem exceptions_identity_and_idempotent:
  "(recurrence_type (calc_event_type c) = ''none''
      \<longrightarrow> apply_recurring_exceptions db c ss start_date end_date = ss)
   \<and> apply_recurring_exceptions db c
        (apply_recurring_exceptions db c ss start_date end_date) start_date end_date
      = apply_recurring_exceptions db c ss start_date end_date"
  by (simp add: apply_recurring_exceptions_def foldl_apply_exception Let_def)

text \<open>
  Both halves at work: the consultation does not recur, and the weekly class loses the
  slot of its cancelled day 0 once and for all.
\<close>

theorem exceptions_identity_and_idempotent_witness:
  "recurrence_type (calc_event_type consultation_calc) = ''none''
   \<and> apply_recurring_exceptions weekly_db consultation_calc [class_slot 0, class_slot 1] 0 6
       = [class_slot 0, class_slot 1]
   \<and> apply_recurring_exceptions weekly_db weekly_calc [class_slot 0, class_slot 1] 0 6
       = [class_slot 1]
   \<and> apply_recurring_exceptions weekly_db weekly_calc
        (apply_recurring_exceptions weekly_db weekly_calc [class_slot 0, class_slot 1] 0 6) 0 6
       = [class_slot 1]"
proof -
  have r: "recurrence_type (calc_event_type consultation_calc) = ''none''"
    by (simp add: consultation_calc_def consultation_def)
  have once: "apply_recurring_exceptions weekly_db weekly_calc [class_slot 0, class_slot 1] 0 6
                = [class_slot 1]"
    by (simp add: apply_recurring_exceptions_def apply_exception_def weekly_db_def
          empty_db_def weekly_calc_def weekly_class_def cancelled_day0_def
          rescheduled_day1_def class_slot_def utc_time_def date_of_def)
  show ?thesis
    using r once
      exceptions_identity_and_idempotent
        [of consultation_calc weekly_db "[class_slot 0, class_slot 1]" 0 6]
      exceptions_identity_and_idempotent
        [of weekly_calc weekly_db "[class_slot 0, class_slot 1]" 0 6]
    by simp
qed

section \<open>Invalidation of the cache\<close>

lemma invalidation_selects_dirty [simp]:
  "invalidation_selects org ds de (e\<lparr>is_dirty := b\<rparr>) = invalidation_selects org ds de e"
  by (simp add: invalidation_selects_def split: option.splits)

lemma filter_selects_after_update:
  "filter (invalidation_selects org ds de)
     (map (\<lambda>e. if invalidation_selects org ds de e then e\<lparr>is_dirty := True\<rparr> else e) es)
   = map (\<lambda>e. e\<lparr>is_dirty := True\<rparr>) (filter (invalidation_selects org ds de) es)"
  by (induction es) simp_all

lemma list_of_three:
  assumes "length xs = 3"
  shows "xs = [xs ! 0, xs ! 1, xs ! 2]"
proof -
  from assms obtain a b c where "xs = [a, b, c]"
    by (metis length_0_conv length_Suc_conv numeral_3_eq_3)
  then show ?thesis by simp
qed

lemma cache_db_entries:
  "cache_entries cache_db = [cached 1 5 4600, cached 1 9 4600, cached 2 6 4600]"
  by (simp add: cache_db_def empty_db_def)

text \<open>
  Claim C4, as stated, at a concrete input: one row of Alice lies in the range from day
  5 to day 7, and the value of the call is not that count: the function returns
  nothing.
\<close>

theorem invalidation_returns_count_counterexample:
  "\<not> (snd (invalidate_availability_cache cache_db alice (Some 5) (Some 7))
       = Some (length (filter (\<lambda>e. c_organizer e = user_id alice \<and> 5 \<le> c_date e \<and> c_date e \<le> 7)
                         (cache_entries cache_db))))"
  by (simp add: invalidate_availability_cache_def Let_def)

text \<open>
  Claim C4, amended: the call sets \<open>is_dirty\<close> on every row of the organizer whose date
  lies in the range given (on all rows of the organizer when no bound is given), deletes
  no row, leaves every other row as it was, writes the number of selected rows to the
  log, and returns nothing.
\<close>

theorem invalidation_marks_selected_rows:
  "length (cache_entries (fst (invalidate_availability_cache db org date_start date_end)))
     = length (cache_entries db)
   \<and> (\<forall>i < length (cache_entries db).
        cache_entries (fst (invalidate_availability_cache db org date_start date_end)) ! i
          = (if c_organizer (cache_entries db ! i) = user_id org
                \<and> (\<forall>s. date_start = Some s \<longrightarrow> s \<le> c_date (cache_entries db ! i))
                \<and> (\<forall>t. date_end = Some t \<longrightarrow> c_date (cache_entries db ! i) \<le> t)
             then (cache_entries db ! i)\<lparr>is_dirty := True\<rparr>
             else cache_entries db ! i))
   \<and> invalidation_log (fst (invalidate_availability_cache db org date_start date_end))
       = invalidation_log db @
           [(length (filter (\<lambda>e. c_organizer e = user_id org
                \<and> (\<forall>s. date_start = Some s \<longrightarrow> s \<le> c_date e)
                \<and> (\<forall>t. date_end = Some t \<longrightarrow> c_date e \<le> t)) (cache_entries db)), email org)]
   \<and> snd (invalidate_availability_cache db org date_start date_end) = None"
proof -
  have sel: "\<And>e. invalidation_selects org date_start date_end e =
               (c_organizer e = user_id org
                \<and> (\<forall>s. date_start = Some s \<longrightarrow> s \<le> c_date e)
                \<and> (\<forall>t. date_end = Some t \<longrightarrow> c_date e \<le> t))"
    by (auto simp: invalidation_selects_def split: option.splits)
  show ?thesis
    by (simp add: invalidate_availability_cache_def Let_def filter_selects_after_update
          flip: sel)
qed

text \<open>
  Scenario D: after a blocked time of Alice from day 5 to day 7, her row of day 5 is
  dirty; her row of day 9 and the row of the other organizer are as before; the log
  line counts one row.
\<close>

theorem invalidation_marks_selected_rows_witness:
  "cache_entries (fst (invalidate_availability_cache cache_db alice (Some 5) (Some 7)))
     = [(cached 1 5 4600)\<lparr>is_dirty := True\<rparr>, cached 1 9 4600, cached 2 6 4600]
   \<and> cache_entries (invalidate_cache_for_blocked_time cache_db blocked_5_to_7)
     = [(cached 1 5 4600)\<lparr>is_dirty := True\<rparr>, cached 1 9 4600, cached 2 6 4600]
   \<and> invalidation_log (fst (invalidate_availability_cache cache_db alice (Some 5) (Some 7)))
     = [(1, ''alice@example.com'')]
   \<and> snd (invalidate_availability_cache cache_db alice (Some 5) (Some 7)) = None"
proof -
  let ?after = "cache_entries (fst (invalidate_availability_cache cache_db alice (Some 5) (Some 7)))"
  note t = invalidation_marks_selected_rows [of cache_db alice "Some 5" "Some 7"]
  from t have len: "length ?after = 3" by (simp add: cache_db_entries)
  from t have rows: "\<forall>i < 3. ?after ! i =
      (if c_organizer (cache_entries cache_db ! i) = user_id alice
            \<and> 5 \<le> c_date (cache_entries cache_db ! i)
            \<and> c_date (cache_entries cache_db ! i) \<le> 7
       then (cache_entries cache_db ! i)\<lparr>is_dirty := True\<rparr>
       else cache_entries cache_db ! i)"
    by (simp add: cache_db_entries)
  have r0: "?after ! 0 = (cached 1 5 4600)\<lparr>is_dirty := True\<rparr>"
    using rows by (simp add: cache_db_entries cached_def alice_def)
  have r1: "?after ! 1 = cached 1 9 4600"
    using rows by (simp add: cache_db_entries cached_def alice_def)
  have r2: "?after ! 2 = cached 2 6 4600"
    using rows by (simp add: cache_db_entries cached_def alice_def)
  have entries: "?after = [(cached 1 5 4600)\<lparr>is_dirty := True\<rparr>, cached 1 9 4600, cached 2 6 4600]"
    using list_of_three [OF len] r0 r1 r2 by simp
  have blocked: "invalidate_cache_for_blocked_time cache_db blocked_5_to_7
                   = fst (invalidate_availability_cache cache_db alice (Some 5) (Some 7))"
    by (simp add: invalidate_cache_for_blocked_time_def blocked_5_to_7_def)
  from t have log: "invalidation_log (fst (invalidate_availability_cache cache_db alice (Some 5) (Some 7)))
     = [(1, ''alice@example.com'')]"
    by (simp add: cache_db_entries cached_def alice_def cache_db_def empty_db_def)
  from t have ret: "snd (invalidate_availability_cache cache_db alice (Some 5) (Some 7)) = None"
    by simp
  show ?thesis using entries blocked log ret by simp
qed

section \<open>The profile signal\<close>

text \<open>
  Claim C10, as stated, at a concrete input: the stored profile and the saved one are
  both in UTC, the save names \<open>timezone_name\<close> in \<open>update_fields\<close>, and Alice's
  clean rows become dirty.
\<close>

theorem unchanged_timezone_counterexample:
  "find (\<lambda>p. p_pk p = p_pk alice_profile) (profiles profile_db) = Some alice_profile
   \<and> map is_dirty (cache_entries
         (handle_profile_timezone_change profile_db alice_profile (Some [''timezone_name''])))
       \<noteq> map is_dirty (cache_entries profile_db)"
  by (simp add: handle_profile_timezone_change_def invalidate_availability_cache_def
        invalidation_selects_def profile_db_def cache_db_def empty_db_def alice_profile_def
        alice_def cached_def Let_def)

text \<open>
  Claim C10, amended: the handler invalidates nothing, and so leaves every
  \<open>is_dirty\<close> flag as it was, when \<open>update_fields\<close> is given, not empty and
  without \<open>timezone_name\<close>, or when \<open>update_fields\<close> is absent (or empty) and the
  stored \<open>timezone_name\<close>, if the row is found, equals the saved one.
\<close>

theorem profile_save_without_timezone_change:
  assumes "(\<exists>fs. update_fields = Some fs \<and> fs \<noteq> [] \<and> ''timezone_name'' \<notin> set fs)
           \<or> ((update_fields = None \<or> update_fields = Some [])
               \<and> (\<forall>old_instance.
                     find (\<lambda>p. p_pk p = p_pk inst) (profiles db) = Some old_instance
                       \<longrightarrow> p_timezone_name old_instance = p_timezone_name inst))"
  shows "handle_profile_timezone_change db inst update_fields = db
         \<and> map is_dirty (cache_entries (handle_profile_timezone_change db inst update_fields))
             = map is_dirty (cache_entries db)"
proof -
  have "handle_profile_timezone_change db inst update_fields = db"
    using assms
    by (auto simp: handle_profile_timezone_change_def split: option.splits)
  then show ?thesis by simp
qed

text \<open>
  A save of another field only, and a full save of an unchanged profile: the tables
  stay as they were.
\<close>

theorem profile_save_without_timezone_change_witness:
  "handle_profile_timezone_change profile_db (alice_profile\<lparr>p_timezone_name := ''Europe/Paris''\<rparr>)
       (Some [''bio'']) = profile_db
   \<and> find (\<lambda>p. p_pk p = p_pk alice_profile) (profiles profile_db) = Some alice_profile
   \<and> handle_profile_timezone_change profile_db alice_profile None = profile_db"
proof -
  have a: "\<exists>fs. Some [''bio''] = Some fs \<and> fs \<noteq> [] \<and> ''timezone_name'' \<notin> set fs"
    by simp
  have f: "find (\<lambda>p. p_pk p = p_pk alice_profile) (profiles profile_db) = Some alice_profile"
    by (simp add: profile_db_def)
  then have b: "\<forall>old_instance.
                     find (\<lambda>p. p_pk p = p_pk alice_profile) (profiles profile_db) = Some old_instance
                       \<longrightarrow> p_timezone_name old_instance = p_timezone_name alice_profile"
    by simp
  show ?thesis
    using f
      profile_save_without_timezone_change
        [of "Some [''bio'']" "alice_profile\<lparr>p_timezone_name := ''Europe/Paris''\<rparr>" profile_db]
      profile_save_without_timezone_change [of None alice_profile profile_db]
      a b
    by blast
qed


section \<open>Slot generation and the time grid\<close>

lemma le_div_pos_iff:
  fixes i :: int
  assumes "0 < i"
  shows "(k \<le> a div i) = (k * i \<le> a)"
proof
  assume "k \<le> a div i"
  then have "k * i \<le> (a div i) * i" using assms by (simp add: mult_right_mono)
  also have "\<dots> \<le> a" using assms
    by (metis add.commute div_mult_mod_eq le_add_same_cancel2 pos_mod_sign)
  finally show "k * i \<le> a" .
next
  assume "k * i \<le> a"
  then have "(k * i) div i \<le> a div i" using assms by (rule zdiv_mono1)
  then show "k \<le> a div i" using assms by simp
qed

lemma grid_count_iff:
  assumes "0 < i"
  shows "(k < grid_count w d i) = (int k * i + d \<le> w)"
proof (cases "d > w")
  case True
  have "0 \<le> int k * i" using assms by simp
  with True have "int k * i + d > w" by linarith
  with True show ?thesis by (simp add: grid_count_def)
next
  case False
  then have nn: "0 \<le> (w - d) div i" using assms by (simp add: pos_imp_zdiv_nonneg_iff)
  have "(int k * i + d \<le> w) = (int k * i \<le> w - d)" by auto
  also have "\<dots> = (int k \<le> (w - d) div i)"
    using le_div_pos_iff [OF assms] by simp
  finally show ?thesis using False nn by (auto simp: grid_count_def)
qed

lemma grid_count_step:
  assumes "0 < i" "d \<le> w"
  shows "grid_count w d i = Suc (grid_count (w - i) d i)"
proof -
  have "\<And>k. (k < grid_count w d i) = (k < Suc (grid_count (w - i) d i))"
  proof -
    fix k
    show "(k < grid_count w d i) = (k < Suc (grid_count (w - i) d i))"
    proof (cases k)
      case 0
      then show ?thesis using assms by (simp add: grid_count_iff)
    next
      case (Suc j)
      then show ?thesis using assms by (simp add: grid_count_iff algebra_simps)
    qed
  qed
  then show ?thesis by (metis less_irrefl linorder_neqE_nat)
qed

lemma instant_plus_minutes: "instant (plus_minutes dt m) = instant dt + 60 * m"
  by (simp add: instant_def plus_minutes_def)

lemma plus_minutes_0: "plus_minutes dt 0 = dt"
  by (simp add: plus_minutes_def)

lemma plus_minutes_plus: "plus_minutes (plus_minutes dt a) b = plus_minutes dt (a + b)"
  by (simp add: plus_minutes_def algebra_simps)

lemma time_grid_empty:
  assumes "0 < i" "instant en < instant st + 60 * d"
  shows "time_grid st en d i = []"
  using assms by (simp add: time_grid_def grid_count_def)

lemma time_grid_step:
  assumes "0 < i" "instant st + 60 * d \<le> instant en"
  shows "time_grid st en d i =
           (st, plus_minutes st d) # time_grid (plus_minutes st i) en d i"
proof -
  have "grid_count (instant en - instant st) (60 * d) (60 * i) =
          Suc (grid_count (instant en - instant (plus_minutes st i)) (60 * d) (60 * i))"
    using grid_count_step [of "60 * i" "60 * d" "instant en - instant st"] assms
    by (simp add: instant_plus_minutes algebra_simps)
  then show ?thesis
    by (simp add: time_grid_def map_upt_Suc plus_minutes_0 plus_minutes_plus algebra_simps
             del: upt_Suc)
qed

lemma all_le_Suc2: "(\<forall>k \<le> Suc m. P k) = (P 0 \<and> (\<forall>k \<le> m. P (Suc k)))"
  using All_less_Suc2 [of "Suc m" P] by (simp add: less_Suc_eq_le)

lemma grid_in_range_iff:
  "grid_in_range st en d i =
     ((\<forall>k \<le> length (time_grid st en d i).
         datetime_in_range (plus_minutes st (int k * i + d)))
      \<and> (\<forall>k < length (time_grid st en d i).
            datetime_in_range (plus_minutes st (int (Suc k) * i))))"
  by (auto simp: grid_in_range_def list_all_iff less_Suc_eq_le)

lemma grid_in_range_first:
  assumes "grid_in_range st en d i"
  shows "datetime_in_range (plus_minutes st d)"
proof -
  from assms have "datetime_in_range (plus_minutes st (int 0 * i + d))"
    unfolding grid_in_range_iff by blast
  then show ?thesis by simp
qed

lemma grid_in_range_stop:
  assumes "0 < i" "instant en < instant st + 60 * d"
  shows "grid_in_range st en d i = datetime_in_range (plus_minutes st d)"
  by (simp add: grid_in_range_iff time_grid_empty [OF assms])

lemma grid_in_range_go:
  assumes "0 < i" "instant st + 60 * d \<le> instant en"
  shows "grid_in_range st en d i =
           (datetime_in_range (plus_minutes st d) \<and> datetime_in_range (plus_minutes st i)
            \<and> grid_in_range (plus_minutes st i) en d i)"
proof -
  let ?m = "length (time_grid (plus_minutes st i) en d i)"
  have len: "length (time_grid st en d i) = Suc ?m"
    by (simp add: time_grid_step [OF assms])
  have shift1: "\<And>k. plus_minutes (plus_minutes st i) (int k * i + d)
                      = plus_minutes st (int (Suc k) * i + d)"
    by (simp add: plus_minutes_plus algebra_simps)
  have shift2: "\<And>k. plus_minutes (plus_minutes st i) (int (Suc k) * i)
                      = plus_minutes st (int (Suc (Suc k)) * i)"
    by (simp add: plus_minutes_plus algebra_simps)
  have a: "(\<forall>k \<le> Suc ?m. datetime_in_range (plus_minutes st (int k * i + d)))
             = (datetime_in_range (plus_minutes st d)
                \<and> (\<forall>k \<le> ?m. datetime_in_range (plus_minutes st (int (Suc k) * i + d))))"
    using all_le_Suc2 [of ?m "\<lambda>k. datetime_in_range (plus_minutes st (int k * i + d))"]
    by simp
  have b: "(\<forall>k < Suc ?m. datetime_in_range (plus_minutes st (int (Suc k) * i)))
             = (datetime_in_range (plus_minutes st i)
                \<and> (\<forall>k < ?m. datetime_in_range (plus_minutes st (int (Suc (Suc k)) * i))))"
    using All_less_Suc2 [of ?m "\<lambda>k. datetime_in_range (plus_minutes st (int (Suc k) * i))"]
    by simp
  show ?thesis
    unfolding grid_in_range_iff len a b shift1 shift2 by blast
qed

lemma daily_loop_time_grid:
  assumes "0 < i" and "grid_in_range cur en (duration (calc_event_type c)) i"
  shows "daily_loop db c n i en cur acc =
           Some (Inr (acc @ map (\<lambda>(s, e). make_slot c s e)
                         (filter (\<lambda>(s, e). is_slot_available db c s e n)
                            (time_grid cur en (duration (calc_event_type c)) i))))"
  using assms(2)
proof (induction "grid_count (instant en - instant cur) (60 * duration (calc_event_type c)) (60 * i)"
        arbitrary: cur acc)
  case 0
  then have "\<not> (0 < grid_count (instant en - instant cur)
                     (60 * duration (calc_event_type c)) (60 * i))" by simp
  then have stop: "instant en < instant cur + 60 * duration (calc_event_type c)"
    using assms(1) by (simp add: grid_count_iff)
  from grid_in_range_first [OF "0.prems"] stop show ?case
    using assms(1)
    by (subst daily_loop.simps) (simp add: instant_plus_minutes time_grid_empty)
next
  case (Suc m)
  then have "0 < grid_count (instant en - instant cur)
                     (60 * duration (calc_event_type c)) (60 * i)" by simp
  then have go: "instant cur + 60 * duration (calc_event_type c) \<le> instant en"
    using assms(1) by (simp add: grid_count_iff)
  have "grid_count (instant en - instant cur) (60 * duration (calc_event_type c)) (60 * i) =
          Suc (grid_count (instant en - instant (plus_minutes cur i))
                 (60 * duration (calc_event_type c)) (60 * i))"
    using grid_count_step [of "60 * i" "60 * duration (calc_event_type c)"
                              "instant en - instant cur"] assms(1) go
    by (simp add: instant_plus_minutes algebra_simps)
  with Suc.hyps(2) have m: "m = grid_count (instant en - instant (plus_minutes cur i))
                 (60 * duration (calc_event_type c)) (60 * i)" by simp
  from Suc.prems have next_ok: "datetime_in_range (plus_minutes cur i)"
      "grid_in_range (plus_minutes cur i) en (duration (calc_event_type c)) i"
    by (simp_all add: grid_in_range_go [OF assms(1) go])
  note IH = Suc.hyps(1) [OF m next_ok(2)]
  show ?case
    using go assms(1) grid_in_range_first [OF Suc.prems] next_ok(1)
    by (subst daily_loop.simps)
       (simp add: instant_plus_minutes IH time_grid_step Let_def)
qed

lemma daily_loop_overflow:
  assumes "0 < i" and "\<not> grid_in_range cur en (duration (calc_event_type c)) i"
  shows "daily_loop db c n i en cur acc = Some (Inl OverflowError)"
  using assms(2)
proof (induction "grid_count (instant en - instant cur) (60 * duration (calc_event_type c)) (60 * i)"
        arbitrary: cur acc)
  case 0
  then have "\<not> (0 < grid_count (instant en - instant cur)
                     (60 * duration (calc_event_type c)) (60 * i))" by simp
  then have stop: "instant en < instant cur + 60 * duration (calc_event_type c)"
    using assms(1) by (simp add: grid_count_iff)
  from "0.prems" have "\<not> datetime_in_range (plus_minutes cur (duration (calc_event_type c)))"
    by (simp add: grid_in_range_stop [OF assms(1) stop])
  then show ?case by (subst daily_loop.simps) simp
next
  case (Suc m)
  then have "0 < grid_count (instant en - instant cur)
                     (60 * duration (calc_event_type c)) (60 * i)" by simp
  then have go: "instant cur + 60 * duration (calc_event_type c) \<le> instant en"
    using assms(1) by (simp add: grid_count_iff)
  have "grid_count (instant en - instant cur) (60 * duration (calc_event_type c)) (60 * i) =
          Suc (grid_count (instant en - instant (plus_minutes cur i))
                 (60 * duration (calc_event_type c)) (60 * i))"
    using grid_count_step [of "60 * i" "60 * duration (calc_event_type c)"
                              "instant en - instant cur"] assms(1) go
    by (simp add: instant_plus_minutes algebra_simps)
  with Suc.hyps(2) have m: "m = grid_count (instant en - instant (plus_minutes cur i))
                 (60 * duration (calc_event_type c)) (60 * i)" by simp
  show ?case
  proof (cases "datetime_in_range (plus_minutes cur (duration (calc_event_type c)))
                \<and> datetime_in_range (plus_minutes cur i)")
    case False
    then show ?thesis using go
      by (subst daily_loop.simps) (auto simp: instant_plus_minutes Let_def)
  next
    case True
    with Suc.prems have "\<not> grid_in_range (plus_minutes cur i) en (duration (calc_event_type c)) i"
      by (simp add: grid_in_range_go [OF assms(1) go])
    from Suc.hyps(1) [OF m this] True go show ?thesis
      by (subst daily_loop.simps) (simp add: instant_plus_minutes Let_def)
  qed
qed

text \<open>
  The loop returns for every interval other than 0: a positive interval moves
  \<open>current_time\<close> towards the end of Python's range and a negative one towards its
  start.
\<close>

lemma daily_loop_returns:
  assumes "i \<noteq> 0"
  shows "\<exists>r. daily_loop db c n i en cur acc = Some r"
proof (induction "if 0 < i then nat ((max_day + 1) * 86400 - wall cur)
                  else nat (wall cur - min_day * 86400)"
        arbitrary: cur acc rule: less_induct)
  case less
  show ?case
  proof (cases "datetime_in_range (plus_minutes cur (duration (calc_event_type c)))
                \<and> instant (plus_minutes cur (duration (calc_event_type c))) \<le> instant en
                \<and> datetime_in_range (plus_minutes cur i)")
    case False
    then show ?thesis by (subst daily_loop.simps) (auto simp: Let_def)
  next
    case True
    then have r: "min_day * 86400 \<le> wall cur + 60 * i" "wall cur + 60 * i < (max_day + 1) * 86400"
      by (simp_all add: datetime_in_range_def plus_minutes_def)
    have smaller: "(if 0 < i then nat ((max_day + 1) * 86400 - wall (plus_minutes cur i))
                    else nat (wall (plus_minutes cur i) - min_day * 86400))
                   < (if 0 < i then nat ((max_day + 1) * 86400 - wall cur)
                      else nat (wall cur - min_day * 86400))"
      using r assms by (auto simp: plus_minutes_def)
    from less.hyps [OF smaller]
    have "\<And>acc'. \<exists>r. daily_loop db c n i en (plus_minutes cur i) acc' = Some r" by blast
    with True show ?thesis by (subst daily_loop.simps) (simp add: Let_def)
  qed
qed

text \<open>
  A negative interval: when the first slot fits, every earlier one fits too, and the
  loop walks backwards until \<open>OverflowError\<close>.
\<close>

lemma daily_loop_negative_interval:
  assumes "i < 0"
      and "instant cur + 60 * duration (calc_event_type c) \<le> instant en"
  shows "daily_loop db c n i en cur acc = Some (Inl OverflowError)"
  using assms(2)
proof (induction "nat (wall cur - min_day * 86400)" arbitrary: cur acc rule: less_induct)
  case less
  show ?case
  proof (cases "datetime_in_range (plus_minutes cur (duration (calc_event_type c)))
                \<and> datetime_in_range (plus_minutes cur i)")
    case False
    with less.prems show ?thesis
      by (subst daily_loop.simps) (auto simp: instant_plus_minutes Let_def)
  next
    case True
    then have r: "min_day * 86400 \<le> wall cur + 60 * i"
      by (simp add: datetime_in_range_def plus_minutes_def)
    have smaller: "nat (wall (plus_minutes cur i) - min_day * 86400)
                     < nat (wall cur - min_day * 86400)"
      using r assms(1) by (simp add: plus_minutes_def)
    have fits: "instant (plus_minutes cur i) + 60 * duration (calc_event_type c) \<le> instant en"
      using less.prems assms(1) by (simp add: instant_plus_minutes)
    from less.hyps [OF smaller fits] True less.prems show ?thesis
      by (subst daily_loop.simps) (simp add: instant_plus_minutes Let_def)
  qed
qed

lemma or_default_30_nonzero: "or_default x 30 \<noteq> 0"
  by (simp add: or_default_def split: option.splits)

lemma get_daily_slots_returns: "\<exists>r. get_daily_slots env db c d n = Some r"
  by (simp add: get_daily_slots_def Let_def daily_loop_returns [OF or_default_30_nonzero]
        split: option.splits)

lemma get_daily_slots_grid:
  assumes "hour_ok (getattr_default (reasonable_hours_start (calc_organizer c)) 9)"
      and "hour_ok (getattr_default (reasonable_hours_end (calc_organizer c)) 17)"
      and "tzdb env (timezone_name c) = Some tz"
      and "0 < or_default (slot_interval_minutes (calc_event_type c)) 30"
      and "grid_in_range
             (localize tz (combine d
                (getattr_default (reasonable_hours_start (calc_organizer c)) 9)))
             (localize tz (combine d
                (getattr_default (reasonable_hours_end (calc_organizer c)) 17)))
             (duration (calc_event_type c))
             (or_default (slot_interval_minutes (calc_event_type c)) 30)"
  shows "get_daily_slots env db c d n =
           Some (Inr (map (\<lambda>(s, e). make_slot c s e)
                        (filter (\<lambda>(s, e). is_slot_available db c s e n)
                           (time_grid
                              (localize tz (combine d
                                 (getattr_default (reasonable_hours_start (calc_organizer c)) 9)))
                              (localize tz (combine d
                                 (getattr_default (reasonable_hours_end (calc_organizer c)) 17)))
                              (duration (calc_event_type c))
                              (or_default (slot_interval_minutes (calc_event_type c)) 30)))))"
  using assms by (simp add: get_daily_slots_def Let_def daily_loop_time_grid)

lemma get_daily_slots_overflow:
  assumes "hour_ok (getattr_default (reasonable_hours_start (calc_organizer c)) 9)"
      and "hour_ok (getattr_default (reasonable_hours_end (calc_organizer c)) 17)"
      and "tzdb env (timezone_name c) = Some tz"
      and "0 < or_default (slot_interval_minutes (calc_event_type c)) 30"
      and "\<not> grid_in_range
             (localize tz (combine d
                (getattr_default (reasonable_hours_start (calc_organizer c)) 9)))
             (localize tz (combine d
                (getattr_default (reasonable_hours_end (calc_organizer c)) 17)))
             (duration (calc_event_type c))
             (or_default (slot_interval_minutes (calc_event_type c)) 30)"
  shows "get_daily_slots env db c d n = Some (Inl OverflowError)"
  using assms by (simp add: get_daily_slots_def Let_def daily_loop_overflow)

lemma time_grid_length:
  assumes "0 < i"
  shows "(k < length (time_grid st en d i)) = (instant st + 60 * (int k * i) + 60 * d \<le> instant en)"
proof -
  have "0 < 60 * i" using assms by simp
  from grid_count_iff [OF this, of k "instant en - instant st" "60 * d"]
  show ?thesis by (simp add: time_grid_def algebra_simps)
qed

lemma time_grid_nth:
  assumes "k < length (time_grid st en d i)"
  shows "time_grid st en d i ! k =
           (plus_minutes st (int k * i), plus_minutes (plus_minutes st (int k * i)) d)"
  using assms by (simp add: time_grid_def plus_minutes_plus)

lemma no_bookings_available:
  assumes "bookings db = []" "n \<le> max_attendees (calc_event_type c)"
  shows "is_slot_available db c s e n"
  using assms by (simp add: is_slot_available_def conflicting_bookings_def)

lemma time_grid_length_count:
  "length (time_grid st en d i) = grid_count (instant en - instant st) (60 * d) (60 * i)"
  by (simp add: time_grid_def)

text \<open>
  Claim C5: with valid working hours, a known zone and a positive interval, the slots of
  one date are the available ones among the intervals of the time grid: the interval
  number \<open>k\<close> starts \<open>k\<close> intervals after the working-hours start and lasts the
  duration; it is there exactly when it ends no later than the working-hours end; no
  slot is produced when the duration exceeds the window; and without bookings every
  interval of the grid is a slot. This is so whenever the sums the loop forms stay in
  Python's range of datetimes; otherwise the call raises \<open>OverflowError\<close>.
\<close>

theorem daily_slots_follow_time_grid:
  assumes "getattr_default (reasonable_hours_start (calc_organizer c)) 9 = start_hour"
      and "getattr_default (reasonable_hours_end (calc_organizer c)) 17 = end_hour"
      and "hour_ok start_hour" and "hour_ok end_hour"
      and "tzdb env (timezone_name c) = Some tz"
      and "slot_interval_minutes (calc_event_type c) = Some interval" and "0 < interval"
      and "duration (calc_event_type c) = dur"
      and "localize tz (combine d start_hour) = working_start"
      and "localize tz (combine d end_hour) = working_end"
  shows "(grid_in_range working_start working_end dur interval
            \<longrightarrow> get_daily_slots env db c d n =
                  Some (Inr (map (\<lambda>(s, e). make_slot c s e)
                               (filter (\<lambda>(s, e). is_slot_available db c s e n)
                                  (time_grid working_start working_end dur interval)))))
         \<and> (\<forall>k. (k < length (time_grid working_start working_end dur interval))
                  = (instant working_start + 60 * (int k * interval) + 60 * dur
                       \<le> instant working_end))
         \<and> (\<forall>k < length (time_grid working_start working_end dur interval).
                time_grid working_start working_end dur interval ! k
                  = (plus_minutes working_start (int k * interval),
                     plus_minutes (plus_minutes working_start (int k * interval)) dur))
         \<and> (instant working_end - instant working_start < 60 * dur
              \<and> grid_in_range working_start working_end dur interval
                \<longrightarrow> get_daily_slots env db c d n = Some (Inr []))
         \<and> (bookings db = [] \<and> n \<le> max_attendees (calc_event_type c)
              \<and> grid_in_range working_start working_end dur interval
                \<longrightarrow> get_daily_slots env db c d n =
                      Some (Inr (map (\<lambda>(s, e). make_slot c s e)
                                   (time_grid working_start working_end dur interval))))
         \<and> (\<not> grid_in_range working_start working_end dur interval
                \<longrightarrow> get_daily_slots env db c d n = Some (Inl OverflowError))"
proof -
  have eff: "or_default (slot_interval_minutes (calc_event_type c)) 30 = interval"
    using assms(6,7) by (simp add: or_default_def)
  have main: "grid_in_range working_start working_end dur interval
            \<longrightarrow> get_daily_slots env db c d n =
           Some (Inr (map (\<lambda>(s, e). make_slot c s e)
                        (filter (\<lambda>(s, e). is_slot_available db c s e n)
                           (time_grid working_start working_end dur interval))))"
    using get_daily_slots_grid [of c env tz d db n] assms eff by simp
  have over: "\<not> grid_in_range working_start working_end dur interval
                \<longrightarrow> get_daily_slots env db c d n = Some (Inl OverflowError)"
    using get_daily_slots_overflow [of c env tz d db n] assms eff by simp
  have len: "\<forall>k. (k < length (time_grid working_start working_end dur interval))
                  = (instant working_start + 60 * (int k * interval) + 60 * dur
                       \<le> instant working_end)"
    using time_grid_length [OF assms(7)] by simp
  have nth: "\<forall>k < length (time_grid working_start working_end dur interval).
                time_grid working_start working_end dur interval ! k
                  = (plus_minutes working_start (int k * interval),
                     plus_minutes (plus_minutes working_start (int k * interval)) dur)"
    using time_grid_nth by simp
  have empty: "instant working_end - instant working_start < 60 * dur
              \<and> grid_in_range working_start working_end dur interval
                \<longrightarrow> get_daily_slots env db c d n = Some (Inr [])"
    using main time_grid_empty [OF assms(7), of working_end working_start dur] by simp
  have free: "bookings db = [] \<and> n \<le> max_attendees (calc_event_type c)
              \<and> grid_in_range working_start working_end dur interval
                \<longrightarrow> get_daily_slots env db c d n =
                      Some (Inr (map (\<lambda>(s, e). make_slot c s e)
                                   (time_grid working_start working_end dur interval)))"
    using main by (simp add: no_bookings_available cong: filter_cong)
  from main len nth empty free over show ?thesis by blast
qed

text \<open>
  Scenario A: 30 minutes every 30 minutes between 09:00 and 17:00 without bookings gives
  16 slots on a date, the first at 09:00 and the last at 16:30.
\<close>

theorem daily_slots_follow_time_grid_witness:
  "get_daily_slots utc_env empty_db consultation_calc 0 1
     = Some (Inr (map (\<lambda>k. half_hour_slot 0 (int k)) [0 ..< 16]))
   \<and> start_time (half_hour_slot 0 0) = utc_time 0 9 0
   \<and> start_time (half_hour_slot 0 15) = utc_time 0 16 30"
proof -
  have sh: "getattr_default (reasonable_hours_start (calc_organizer consultation_calc)) 9 = 9"
    and eh: "getattr_default (reasonable_hours_end (calc_organizer consultation_calc)) 17 = 17"
    by (simp_all add: getattr_default_def consultation_calc_def alice_def)
  have ok: "hour_ok 9" "hour_ok 17" by (simp_all add: hour_ok_def)
  have tz: "tzdb utc_env (timezone_name consultation_calc) = Some (\<lambda>_. 0)"
    by (simp add: utc_env_def consultation_calc_def)
  have i: "slot_interval_minutes (calc_event_type consultation_calc) = Some 30" "(0::int) < 30"
    by (simp_all add: consultation_calc_def consultation_def)
  have d: "duration (calc_event_type consultation_calc) = 30"
    by (simp add: consultation_calc_def consultation_def)
  have ws: "localize (\<lambda>_. 0) (combine 0 9) = utc_time 0 9 0"
    and we: "localize (\<lambda>_. 0) (combine 0 17) = utc_time 0 17 0"
    by (simp_all add: localize_def combine_def utc_time_def)
  have free: "bookings empty_db = [] \<and> 1 \<le> max_attendees (calc_event_type consultation_calc)"
    by (simp add: empty_db_def consultation_calc_def consultation_def)
  have count: "grid_count (instant (utc_time 0 17 0) - instant (utc_time 0 9 0)) (60 * 30) (60 * 30) = 16"
    by (simp add: grid_count_def instant_def utc_time_def)
  have slot: "\<And>k. make_slot consultation_calc (plus_minutes (utc_time 0 9 0) (int k * 30))
                    (plus_minutes (utc_time 0 9 0) (int k * 30 + 30)) = half_hour_slot 0 (int k)"
    by (simp add: make_slot_def plus_minutes_def utc_time_def half_hour_slot_def
          consultation_calc_def consultation_def)
  have len: "length (time_grid (utc_time 0 9 0) (utc_time 0 17 0) 30 30) = 16"
    by (simp only: time_grid_length_count count)
  have range: "grid_in_range (utc_time 0 9 0) (utc_time 0 17 0) 30 30"
    unfolding grid_in_range_iff len
    by (auto simp: datetime_in_range_def plus_minutes_def utc_time_def min_day_def max_day_def)
  have grid: "map (\<lambda>(s, e). make_slot consultation_calc s e)
                (time_grid (utc_time 0 9 0) (utc_time 0 17 0) 30 30)
              = map (\<lambda>k. half_hour_slot 0 (int k)) [0 ..< 16]"
    unfolding time_grid_def count by (simp only: map_map comp_def split_conv slot)
  from daily_slots_follow_time_grid [OF sh eh ok tz i d ws we, of empty_db 1] free range
  have "get_daily_slots utc_env empty_db consultation_calc 0 1
          = Some (Inr (map (\<lambda>(s, e). make_slot consultation_calc s e)
                        (time_grid (utc_time 0 9 0) (utc_time 0 17 0) 30 30)))"
    by blast
  then have "get_daily_slots utc_env empty_db consultation_calc 0 1
          = Some (Inr (map (\<lambda>k. half_hour_slot 0 (int k)) [0 ..< 16]))"
    by (simp only: grid)
  then show ?thesis by (simp add: half_hour_slot_def utc_time_def)
qed

section \<open>The query over a date range\<close>

lemma calculate_availability_single_day:
  assumes "d < max_day"
  shows "calculate_availability env db c d d n =
     (if can_book_on_date (calc_event_type c) d then get_daily_slots env db c d n
      else Some (Inr []))"
  using assms by (simp add: calculate_availability_def split: option.splits sum.splits)

lemma calculate_availability_inverted:
  "end_date < start_date \<Longrightarrow> calculate_availability env db c start_date end_date n = Some (Inr [])"
  by (simp add: calculate_availability_def)

lemma get_available_slots_uncached:
  assumes "calculate_availability env db c sd ed n = Some (Inr ss)"
  shows "get_available_slots env db c sd ed n False =
           Some (\<lparr>slots = apply_recurring_exceptions db c ss sd ed,
                  total_slots = length (apply_recurring_exceptions db c ss sd ed),
                  cache_hit = False, error = None,
                  pm_computation_time_ms = (now_done env - now env) * 1000,
                  pm_cache_used = False, pm_cached_at = None\<rparr>, db)"
  using assms by (simp add: get_available_slots_def apply_recurring_logic_def Let_def)

lemma get_daily_slots_no_bookings:
  assumes "hour_ok (getattr_default (reasonable_hours_start (calc_organizer c)) 9)"
      and "hour_ok (getattr_default (reasonable_hours_end (calc_organizer c)) 17)"
      and "tzdb env (timezone_name c) = Some tz"
      and "0 < or_default (slot_interval_minutes (calc_event_type c)) 30"
      and "grid_in_range
             (localize tz (combine d
                (getattr_default (reasonable_hours_start (calc_organizer c)) 9)))
             (localize tz (combine d
                (getattr_default (reasonable_hours_end (calc_organizer c)) 17)))
             (duration (calc_event_type c))
             (or_default (slot_interval_minutes (calc_event_type c)) 30)"
      and "bookings db = []" and "n \<le> max_attendees (calc_event_type c)"
  shows "get_daily_slots env db c d n =
           Some (Inr (map (\<lambda>(s, e). make_slot c s e)
                           (time_grid
                              (localize tz (combine d
                                 (getattr_default (reasonable_hours_start (calc_organizer c)) 9)))
                              (localize tz (combine d
                                 (getattr_default (reasonable_hours_end (calc_organizer c)) 17)))
                              (duration (calc_event_type c))
                              (or_default (slot_interval_minutes (calc_event_type c)) 30))))"
  using get_daily_slots_grid [OF assms(1-5)] assms(6,7)
  by (simp add: no_bookings_available cong: filter_cong)

lemma zero_duration_facts:
  "getattr_default (reasonable_hours_start (calc_organizer zero_duration_calc)) 9 = 9"
  "getattr_default (reasonable_hours_end (calc_organizer zero_duration_calc)) 17 = 17"
  "tzdb utc_env (timezone_name zero_duration_calc) = Some (\<lambda>_. 0)"
  "or_default (slot_interval_minutes (calc_event_type zero_duration_calc)) 30 = 30"
  "duration (calc_event_type zero_duration_calc) = 0"
  "max_attendees (calc_event_type zero_duration_calc) = 1"
  "recurrence_type (calc_event_type zero_duration_calc) = ''none''"
  "can_book_on_date (calc_event_type zero_duration_calc) d"
  by (simp_all add: zero_duration_calc_def consultation_calc_def consultation_def alice_def
        utc_env_def getattr_default_def or_default_def)

lemma zero_interval_facts:
  "getattr_default (reasonable_hours_start (calc_organizer zero_interval_calc)) 9 = 9"
  "getattr_default (reasonable_hours_end (calc_organizer zero_interval_calc)) 17 = 17"
  "tzdb utc_env (timezone_name zero_interval_calc) = Some (\<lambda>_. 0)"
  "or_default (slot_interval_minutes (calc_event_type zero_interval_calc)) 30 = 30"
  "duration (calc_event_type zero_interval_calc) = 30"
  "max_attendees (calc_event_type zero_interval_calc) = 1"
  "recurrence_type (calc_event_type zero_interval_calc) = ''none''"
  "can_book_on_date (calc_event_type zero_interval_calc) d"
  by (simp_all add: zero_interval_calc_def consultation_calc_def consultation_def alice_def
        utc_env_def getattr_default_def or_default_def)

lemma calculate_loop_succeeds:
  assumes "\<And>d. cur \<le> d \<Longrightarrow> d \<le> ed \<Longrightarrow>
             d < max_day \<and> (\<exists>ss. get_daily_slots env db c d n = Some (Inr ss))"
  shows "\<exists>ss. calculate_loop env db c ed n cur acc = Some (Inr ss)"
  using assms
proof (induction "nat (ed + 1 - cur)" arbitrary: cur acc)
  case 0
  then have "\<not> cur \<le> ed" by simp
  then show ?case by simp
next
  case (Suc m)
  then have in_range: "cur \<le> ed" by simp
  from Suc.prems [of cur] in_range
  obtain ds where day: "cur < max_day" "get_daily_slots env db c cur n = Some (Inr ds)"
    by auto
  from Suc.hyps(2) have m: "m = nat (ed + 1 - (cur + 1))" by simp
  have rest: "\<And>acc'. \<exists>ss. calculate_loop env db c ed n (cur + 1) acc' = Some (Inr ss)"
    by (rule Suc.hyps(1) [OF m]) (use Suc.prems in auto)
  from rest [of "acc @ ds"] rest [of acc] in_range day show ?case by auto
qed

lemma calculate_loop_returns: "\<exists>r. calculate_loop env db c ed n cur acc = Some r"
proof (induction "nat (ed + 1 - cur)" arbitrary: cur acc)
  case 0
  then have "\<not> cur \<le> ed" by simp
  then show ?case by simp
next
  case (Suc m)
  then have in_range: "cur \<le> ed" by simp
  from get_daily_slots_returns
  obtain r where day: "get_daily_slots env db c cur n = Some r" by blast
  from Suc.hyps(2) have m: "m = nat (ed + 1 - (cur + 1))" by simp
  have rest: "\<And>acc'. \<exists>r. calculate_loop env db c ed n (cur + 1) acc' = Some r"
    by (rule Suc.hyps(1) [OF m])
  from rest [of acc] in_range day show ?case
  proof (cases r)
    case (Inl e)
    with rest [of acc] in_range day show ?thesis by auto
  next
    case (Inr ds)
    with rest [of "acc @ ds"] rest [of acc] in_range day show ?thesis by auto
  qed
qed

lemma calculate_availability_returns:
  "\<exists>r. calculate_availability env db c sd ed n = Some r"
  unfolding calculate_availability_def by (rule calculate_loop_returns)

text \<open>
  An interval of a year backwards on day 0: the query returns the error result of the
  \<open>OverflowError\<close> it catches, without slots and without a cache hit.
\<close>

lemma negative_interval_overflows:
  "get_available_slots utc_env empty_db backwards_calc 0 0 1 False
     = Some (error_result utc_env OverflowError False, empty_db)"
proof -
  have "daily_loop empty_db backwards_calc 1 (- 525600)
          (localize (\<lambda>_. 0) (combine 0 17)) (localize (\<lambda>_. 0) (combine 0 9)) []
        = Some (Inl OverflowError)"
    by (rule daily_loop_negative_interval)
       (simp_all add: backwards_calc_def consultation_def instant_def localize_def combine_def)
  then have "get_daily_slots utc_env empty_db backwards_calc 0 1 = Some (Inl OverflowError)"
    by (simp add: get_daily_slots_def Let_def backwards_calc_def consultation_calc_def
          consultation_def alice_def utc_env_def getattr_default_def or_default_def
          hour_ok_def)
  then have "calculate_availability utc_env empty_db backwards_calc 0 0 1
               = Some (Inl OverflowError)"
    by (simp add: calculate_availability_single_day max_day_def backwards_calc_def
          consultation_def)
  then show ?thesis by (simp add: get_available_slots_def)
qed

text \<open>
  A working day in UTC from 09:00 to 17:00, in the years around 1970, with a duration of
  at most half an hour and an interval of half an hour, stays in Python's range.
\<close>

lemma utc_day_in_range:
  assumes "0 \<le> d" "d \<le> 10000" "0 \<le> dur" "dur \<le> 30"
  shows "grid_in_range (localize (\<lambda>_. 0) (combine d 9))
           (localize (\<lambda>_. 0) (combine d 17)) dur 30"
proof -
  let ?G = "time_grid (localize (\<lambda>_. 0) (combine d 9)) (localize (\<lambda>_. 0) (combine d 17)) dur 30"
  have lt: "\<And>k. k < length ?G \<Longrightarrow> k \<le> 16"
    using assms(3)
    by (simp add: time_grid_length instant_def localize_def combine_def)
  have le: "\<And>k. k \<le> length ?G \<Longrightarrow> k \<le> 17"
  proof -
    fix k assume k: "k \<le> length ?G"
    show "k \<le> 17"
    proof (cases k)
      case 0
      then show ?thesis by simp
    next
      case (Suc j)
      with k have "j < length ?G" by simp
      from lt [OF this] Suc show ?thesis by simp
    qed
  qed
  show ?thesis
    unfolding grid_in_range_iff
  proof (intro conjI allI impI)
    fix k assume "k \<le> length ?G"
    from le [OF this] assms
    show "datetime_in_range
            (plus_minutes (localize (\<lambda>_. 0) (combine d 9)) (int k * 30 + dur))"
      by (simp add: datetime_in_range_def plus_minutes_def localize_def combine_def
            min_day_def max_day_def)
  next
    fix k assume "k < length ?G"
    from lt [OF this] assms
    show "datetime_in_range
            (plus_minutes (localize (\<lambda>_. 0) (combine d 9)) (int (Suc k) * 30))"
      by (simp add: datetime_in_range_def plus_minutes_def localize_def combine_def
            min_day_def max_day_def)
  qed
qed

section \<open>Configuration values that are not positive\<close>

text \<open>
  Claim C6, as stated, at two concrete inputs: a duration of 0 minutes gives 17 slots and
  an interval of 0 minutes gives 16, and neither result carries an error.
\<close>

theorem invalid_configuration_counterexample:
  "map_option (\<lambda>(r, _). (error r, total_slots r))
     (get_available_slots utc_env empty_db zero_duration_calc 0 0 1 False) = Some (None, 17)
   \<and> map_option (\<lambda>(r, _). (error r, total_slots r))
     (get_available_slots utc_env empty_db zero_interval_calc 0 0 1 False) = Some (None, 16)"
proof -
  have b: "bookings empty_db = []" by (simp add: empty_db_def)
  have "get_daily_slots utc_env empty_db zero_duration_calc 0 1 =
          Some (Inr (map (\<lambda>(s, e). make_slot zero_duration_calc s e)
                  (time_grid (localize (\<lambda>_. 0) (combine 0 9)) (localize (\<lambda>_. 0) (combine 0 17)) 0 30)))"
    using get_daily_slots_no_bookings
            [where c = zero_duration_calc and env = utc_env and tz = "\<lambda>_. 0"
               and db = empty_db and n = 1 and d = 0] b
      utc_day_in_range [of 0 0]
    by (simp add: zero_duration_facts hour_ok_def)
  then have "calculate_availability utc_env empty_db zero_duration_calc 0 0 1 =
          Some (Inr (map (\<lambda>(s, e). make_slot zero_duration_calc s e)
                  (time_grid (localize (\<lambda>_. 0) (combine 0 9)) (localize (\<lambda>_. 0) (combine 0 17)) 0 30)))"
    by (simp add: calculate_availability_single_day zero_duration_facts max_day_def)
  from get_available_slots_uncached [OF this]
  have one: "map_option (\<lambda>(r, _). (error r, total_slots r))
     (get_available_slots utc_env empty_db zero_duration_calc 0 0 1 False) = Some (None, 17)"
    by (simp add: apply_recurring_exceptions_def zero_duration_facts time_grid_length_count
          grid_count_def instant_def localize_def combine_def)
  have "get_daily_slots utc_env empty_db zero_interval_calc 0 1 =
          Some (Inr (map (\<lambda>(s, e). make_slot zero_interval_calc s e)
                  (time_grid (localize (\<lambda>_. 0) (combine 0 9)) (localize (\<lambda>_. 0) (combine 0 17)) 30 30)))"
    using get_daily_slots_no_bookings
            [where c = zero_interval_calc and env = utc_env and tz = "\<lambda>_. 0"
               and db = empty_db and n = 1 and d = 0] b
      utc_day_in_range [of 0 30]
    by (simp add: zero_interval_facts hour_ok_def)
  then have "calculate_availability utc_env empty_db zero_interval_calc 0 0 1 =
          Some (Inr (map (\<lambda>(s, e). make_slot zero_interval_calc s e)
                  (time_grid (localize (\<lambda>_. 0) (combine 0 9)) (localize (\<lambda>_. 0) (combine 0 17)) 30 30)))"
    by (simp add: calculate_availability_single_day zero_interval_facts max_day_def)
  from get_available_slots_uncached [OF this]
  have two: "map_option (\<lambda>(r, _). (error r, total_slots r))
     (get_available_slots utc_env empty_db zero_interval_calc 0 0 1 False) = Some (None, 16)"
    by (simp add: apply_recurring_exceptions_def zero_interval_facts time_grid_length_count
          grid_count_def instant_def localize_def combine_def)
  from one two show ?thesis by simp
qed

text \<open>
  Claim C6, amended: no configuration is rejected. An interval of 0 or \<open>None\<close> is
  replaced by 30 minutes, and any duration, also one of 0 or below, is accepted: with
  valid working hours, a known zone and an interval that is not negative, the slots of
  a date are the available intervals of the time grid for that duration and the
  interval in force, and the query without cache returns a result without error. This
  is so whenever the sums the loops form stay in Python's range of dates and datetimes;
  otherwise the slots of the date fail with \<open>OverflowError\<close>.
\<close>

theorem non_positive_configuration_accepted:
  assumes "hour_ok (getattr_default (reasonable_hours_start (calc_organizer c)) 9)"
      and "hour_ok (getattr_default (reasonable_hours_end (calc_organizer c)) 17)"
      and "tzdb env (timezone_name c) = Some tz"
      and "\<forall>i. slot_interval_minutes (calc_event_type c) = Some i \<longrightarrow> 0 \<le> i"
  shows "(grid_in_range
              (localize tz (combine d
                 (getattr_default (reasonable_hours_start (calc_organizer c)) 9)))
              (localize tz (combine d
                 (getattr_default (reasonable_hours_end (calc_organizer c)) 17)))
              (duration (calc_event_type c))
              (case slot_interval_minutes (calc_event_type c) of
                 None \<Rightarrow> 30 | Some i \<Rightarrow> if i = 0 then 30 else i)
          \<longrightarrow> get_daily_slots env db c d n =
                Some (Inr (map (\<lambda>(s, e). make_slot c s e)
                        (filter (\<lambda>(s, e). is_slot_available db c s e n)
                           (time_grid
                              (localize tz (combine d
                                 (getattr_default (reasonable_hours_start (calc_organizer c)) 9)))
                              (localize tz (combine d
                                 (getattr_default (reasonable_hours_end (calc_organizer c)) 17)))
                              (duration (calc_event_type c))
                              (case slot_interval_minutes (calc_event_type c) of
                                 None \<Rightarrow> 30 | Some i \<Rightarrow> if i = 0 then 30 else i))))))
         \<and> ((\<forall>day. start_date \<le> day \<and> day \<le> end_date \<longrightarrow>
                 day < max_day \<and> grid_in_range
              (localize tz (combine day
                 (getattr_default (reasonable_hours_start (calc_organizer c)) 9)))
              (localize tz (combine day
                 (getattr_default (reasonable_hours_end (calc_organizer c)) 17)))
              (duration (calc_event_type c))
              (case slot_interval_minutes (calc_event_type c) of
                 None \<Rightarrow> 30 | Some i \<Rightarrow> if i = 0 then 30 else i))
              \<longrightarrow> (\<exists>r. get_available_slots env db c start_date end_date n False = Some (r, db)
                       \<and> error r = None))
         \<and> (\<not> grid_in_range
              (localize tz (combine d
                 (getattr_default (reasonable_hours_start (calc_organizer c)) 9)))
              (localize tz (combine d
                 (getattr_default (reasonable_hours_end (calc_organizer c)) 17)))
              (duration (calc_event_type c))
              (case slot_interval_minutes (calc_event_type c) of
                 None \<Rightarrow> 30 | Some i \<Rightarrow> if i = 0 then 30 else i)
              \<longrightarrow> get_daily_slots env db c d n = Some (Inl OverflowError))"
proof -
  have eff: "or_default (slot_interval_minutes (calc_event_type c)) 30 =
               (case slot_interval_minutes (calc_event_type c) of
                  None \<Rightarrow> 30 | Some i \<Rightarrow> if i = 0 then 30 else i)"
    by (simp add: or_default_def)
  have pos: "0 < or_default (slot_interval_minutes (calc_event_type c)) 30"
    using assms(4) by (auto simp: or_default_def split: option.splits)
  note daily = get_daily_slots_grid [OF assms(1-3) pos]
  note over = get_daily_slots_overflow [OF assms(1-3) pos]
  have one: "grid_in_range
              (localize tz (combine d
                 (getattr_default (reasonable_hours_start (calc_organizer c)) 9)))
              (localize tz (combine d
                 (getattr_default (reasonable_hours_end (calc_organizer c)) 17)))
              (duration (calc_event_type c))
              (case slot_interval_minutes (calc_event_type c) of
                 None \<Rightarrow> 30 | Some i \<Rightarrow> if i = 0 then 30 else i)
          \<longrightarrow> get_daily_slots env db c d n =
                Some (Inr (map (\<lambda>(s, e). make_slot c s e)
                        (filter (\<lambda>(s, e). is_slot_available db c s e n)
                           (time_grid
                              (localize tz (combine d
                                 (getattr_default (reasonable_hours_start (calc_organizer c)) 9)))
                              (localize tz (combine d
                                 (getattr_default (reasonable_hours_end (calc_organizer c)) 17)))
                              (duration (calc_event_type c))
                              (case slot_interval_minutes (calc_event_type c) of
                                 None \<Rightarrow> 30 | Some i \<Rightarrow> if i = 0 then 30 else i)))))"
    using daily [of d db n] by (simp only: eff) blast
  have three: "\<not> grid_in_range
              (localize tz (combine d
                 (getattr_default (reasonable_hours_start (calc_organizer c)) 9)))
              (localize tz (combine d
                 (getattr_default (reasonable_hours_end (calc_organizer c)) 17)))
              (duration (calc_event_type c))
              (case slot_interval_minutes (calc_event_type c) of
                 None \<Rightarrow> 30 | Some i \<Rightarrow> if i = 0 then 30 else i)
              \<longrightarrow> get_daily_slots env db c d n = Some (Inl OverflowError)"
    using over [of d db n] by (simp only: eff) blast
  have two: "(\<forall>day. start_date \<le> day \<and> day \<le> end_date \<longrightarrow>
                 day < max_day \<and> grid_in_range
              (localize tz (combine day
                 (getattr_default (reasonable_hours_start (calc_organizer c)) 9)))
              (localize tz (combine day
                 (getattr_default (reasonable_hours_end (calc_organizer c)) 17)))
              (duration (calc_event_type c))
              (case slot_interval_minutes (calc_event_type c) of
                 None \<Rightarrow> 30 | Some i \<Rightarrow> if i = 0 then 30 else i))
              \<longrightarrow> (\<exists>r. get_available_slots env db c start_date end_date n False = Some (r, db)
                       \<and> error r = None)"
  proof
    assume all: "\<forall>day. start_date \<le> day \<and> day \<le> end_date \<longrightarrow>
                 day < max_day \<and> grid_in_range
              (localize tz (combine day
                 (getattr_default (reasonable_hours_start (calc_organizer c)) 9)))
              (localize tz (combine day
                 (getattr_default (reasonable_hours_end (calc_organizer c)) 17)))
              (duration (calc_event_type c))
              (case slot_interval_minutes (calc_event_type c) of
                 None \<Rightarrow> 30 | Some i \<Rightarrow> if i = 0 then 30 else i)"
    have "\<exists>ss. calculate_availability env db c start_date end_date n = Some (Inr ss)"
      unfolding calculate_availability_def
    proof (rule calculate_loop_succeeds)
      fix day assume "start_date \<le> day" "day \<le> end_date"
      with all have "day < max_day" and r: "grid_in_range
              (localize tz (combine day
                 (getattr_default (reasonable_hours_start (calc_organizer c)) 9)))
              (localize tz (combine day
                 (getattr_default (reasonable_hours_end (calc_organizer c)) 17)))
              (duration (calc_event_type c))
              (case slot_interval_minutes (calc_event_type c) of
                 None \<Rightarrow> 30 | Some i \<Rightarrow> if i = 0 then 30 else i)"
        by blast+
      from r have "get_daily_slots env db c day n =
                Some (Inr (map (\<lambda>(s, e). make_slot c s e)
                        (filter (\<lambda>(s, e). is_slot_available db c s e n)
                           (time_grid
                              (localize tz (combine day
                                 (getattr_default (reasonable_hours_start (calc_organizer c)) 9)))
                              (localize tz (combine day
                                 (getattr_default (reasonable_hours_end (calc_organizer c)) 17)))
                              (duration (calc_event_type c))
                              (case slot_interval_minutes (calc_event_type c) of
                                 None \<Rightarrow> 30 | Some i \<Rightarrow> if i = 0 then 30 else i)))))"
        using daily [of day db n] by (simp only: eff)
      with \<open>day < max_day\<close>
      show "day < max_day \<and> (\<exists>ss. get_daily_slots env db c day n = Some (Inr ss))"
        by blast
    qed
    then obtain ss where "calculate_availability env db c start_date end_date n = Some (Inr ss)"
      by blast
    from get_available_slots_uncached [OF this]
    show "\<exists>r. get_available_slots env db c start_date end_date n False = Some (r, db)
                  \<and> error r = None"
      by simp
  qed
  from one two three show ?thesis by blast
qed

text \<open>
  A duration of 0 minutes: 17 slots of no length, every half hour from 09:00 to 17:00.
\<close>

theorem non_positive_configuration_accepted_witness:
  "get_daily_slots utc_env empty_db zero_duration_calc 0 1
     = Some (Inr (map (\<lambda>k. \<lparr>start_time = utc_time 0 9 (30 * int k),
                                end_time = utc_time 0 9 (30 * int k),
                                duration_minutes = 0, available_spots = 1\<rparr>) [0 ..< 17]))
   \<and> map_option (\<lambda>(r, db'). (error r, db'))
       (get_available_slots utc_env empty_db zero_duration_calc 0 0 1 False)
       = Some (None, empty_db)"
proof -
  have h: "hour_ok (getattr_default (reasonable_hours_start (calc_organizer zero_duration_calc)) 9)"
          "hour_ok (getattr_default (reasonable_hours_end (calc_organizer zero_duration_calc)) 17)"
    by (simp_all add: zero_duration_facts hour_ok_def)
  have iv: "slot_interval_minutes (calc_event_type zero_duration_calc) = Some 30"
    by (simp add: zero_duration_calc_def consultation_def)
  have i: "\<forall>i. slot_interval_minutes (calc_event_type zero_duration_calc) = Some i \<longrightarrow> 0 \<le> i"
    by (simp add: iv)
  have count: "grid_count (instant (localize (\<lambda>_. 0) (combine 0 17))
                             - instant (localize (\<lambda>_. 0) (combine 0 9))) (60 * 0) (60 * 30) = 17"
    by (simp add: grid_count_def instant_def localize_def combine_def)
  have slot: "\<And>k. make_slot zero_duration_calc
                    (plus_minutes (localize (\<lambda>_. 0) (combine 0 9)) (int k * 30))
                    (plus_minutes (localize (\<lambda>_. 0) (combine 0 9)) (int k * 30 + 0))
                = \<lparr>start_time = utc_time 0 9 (30 * int k), end_time = utc_time 0 9 (30 * int k),
                    duration_minutes = 0, available_spots = 1\<rparr>"
    by (simp add: make_slot_def plus_minutes_def utc_time_def localize_def combine_def
          zero_duration_facts)
  have free: "\<And>s e. is_slot_available empty_db zero_duration_calc s e 1"
    by (rule no_bookings_available) (simp_all add: empty_db_def zero_duration_facts)
  have all: "filter (\<lambda>(s, e). is_slot_available empty_db zero_duration_calc s e 1)
                   (time_grid (localize (\<lambda>_. 0) (combine 0 9))
                      (localize (\<lambda>_. 0) (combine 0 17)) 0 30)
             = time_grid (localize (\<lambda>_. 0) (combine 0 9))
                      (localize (\<lambda>_. 0) (combine 0 17)) 0 30"
    by (simp add: free)
  have grid: "map (\<lambda>(s, e). make_slot zero_duration_calc s e)
                (filter (\<lambda>(s, e). is_slot_available empty_db zero_duration_calc s e 1)
                   (time_grid (localize (\<lambda>_. 0) (combine 0 9))
                      (localize (\<lambda>_. 0) (combine 0 17)) 0 30))
              = map (\<lambda>k. \<lparr>start_time = utc_time 0 9 (30 * int k),
                            end_time = utc_time 0 9 (30 * int k),
                            duration_minutes = 0, available_spots = 1\<rparr>) [0 ..< 17]"
    unfolding all unfolding time_grid_def count
    by (simp only: split_conv map_map comp_def slot)
  have range: "grid_in_range (localize (\<lambda>_. 0) (combine 0 9))
                 (localize (\<lambda>_. 0) (combine 0 17)) 0 30"
    using utc_day_in_range [of 0 0] by simp
  have days: "\<forall>day. (0::int) \<le> day \<and> day \<le> 0 \<longrightarrow>
                 day < max_day
                 \<and> grid_in_range (localize (\<lambda>_. 0) (combine day 9))
                       (localize (\<lambda>_. 0) (combine day 17)) 0 30"
    using range by (auto simp: max_day_def)
  note t = non_positive_configuration_accepted
         [OF h zero_duration_facts(3) i,
          where db = empty_db and d = 0 and n = 1 and start_date = 0 and end_date = 0]
  from t days
  have "\<exists>r. get_available_slots utc_env empty_db zero_duration_calc 0 0 1 False
               = Some (r, empty_db) \<and> error r = None"
    by (simp add: zero_duration_facts iv)
  then have query: "map_option (\<lambda>(r, db'). (error r, db'))
       (get_available_slots utc_env empty_db zero_duration_calc 0 0 1 False)
       = Some (None, empty_db)"
    by auto
  from t range
  have "get_daily_slots utc_env empty_db zero_duration_calc 0 1
     = Some (Inr (map (\<lambda>(s, e). make_slot zero_duration_calc s e)
                (filter (\<lambda>(s, e). is_slot_available empty_db zero_duration_calc s e 1)
                   (time_grid (localize (\<lambda>_. 0) (combine 0 9))
                      (localize (\<lambda>_. 0) (combine 0 17)) 0 30))))"
    by (simp add: zero_duration_facts iv)
  then have "get_daily_slots utc_env empty_db zero_duration_calc 0 1
     = Some (Inr (map (\<lambda>k. \<lparr>start_time = utc_time 0 9 (30 * int k),
                                end_time = utc_time 0 9 (30 * int k),
                                duration_minutes = 0, available_spots = 1\<rparr>) [0 ..< 17]))"
    by (simp only: grid)
  with query show ?thesis by blast
qed


section \<open>An inverted date range\<close>

lemma get_cached_availability_usable:
  "get_cached_availability env db c sd ed n =
     (case filter (\<lambda>e. cache_key_matches c sd n e \<and> usable (now env) e) (cache_entries db) of
        [] \<Rightarrow> Inr None
      | [cache_entry] \<Rightarrow>
          Inr (Some \<lparr>slots = available_slots cache_entry,
                     total_slots = length (available_slots cache_entry),
                     cache_hit = True,
                     error = None,
                     pm_computation_time_ms = computation_time_ms cache_entry,
                     pm_cache_used = True,
                     pm_cached_at = Some (computed_at cache_entry)\<rparr>)
      | _ \<Rightarrow> Inl MultipleObjectsReturned)"
  by (simp add: get_cached_availability_def usable_def)

lemma get_cached_availability_miss:
  assumes "\<forall>e \<in> set (cache_entries db). cache_key_matches c sd n e \<longrightarrow> \<not> usable (now env) e"
  shows "get_cached_availability env db c sd ed n = Inr None"
proof -
  have "filter (\<lambda>e. cache_key_matches c sd n e \<and> usable (now env) e) (cache_entries db) = []"
    using assms by (auto simp: filter_empty_conv)
  then show ?thesis
    by (simp add: get_cached_availability_usable)
qed

lemma apply_recurring_exceptions_Nil: "apply_recurring_exceptions db c [] sd ed = []"
  by (simp add: apply_recurring_exceptions_def foldl_apply_exception Let_def)

text \<open>
  Claim C9: when the start date lies after the end date and no usable cache entry is
  served (the cache is off, or no entry of the key is usable), the query returns an
  empty slot list, a total of 0 and no error.
\<close>

theorem inverted_range_is_empty:
  assumes "end_date < start_date"
      and "use_cache \<longrightarrow>
             (\<forall>e \<in> set (cache_entries db).
                cache_key_matches c start_date n e \<longrightarrow> \<not> usable (now env) e)"
  shows "\<exists>r db'. get_available_slots env db c start_date end_date n use_cache = Some (r, db')
           \<and> slots r = [] \<and> total_slots r = 0 \<and> error r = None \<and> cache_hit r = False"
proof -
  have lookup: "(if use_cache then get_cached_availability env db c start_date end_date n
                 else Inr None) = Inr None"
    using assms(2) by (simp add: get_cached_availability_miss)
  show ?thesis
    unfolding get_available_slots_def lookup
    by (simp add: calculate_availability_inverted [OF assms(1)] apply_recurring_logic_def
          apply_recurring_exceptions_Nil Let_def)
qed

text \<open>
  From day 3 to day 2 without cache, and from day 5 to day 4 with a cache whose entry
  has expired: no slot and no error.
\<close>

theorem inverted_range_is_empty_witness:
  "map_option (\<lambda>(r, _). (slots r, total_slots r, error r, cache_hit r))
     (get_available_slots utc_env empty_db consultation_calc 3 2 1 False)
     = Some ([], 0, None, False)
   \<and> map_option (\<lambda>(r, _). (slots r, total_slots r, error r, cache_hit r))
     (get_available_slots utc_env stale_db consultation_calc 5 4 1 True)
     = Some ([], 0, None, False)"
proof -
  have a: "(2::int) < 3" "(4::int) < 5" by simp_all
  have b: "False \<longrightarrow> (\<forall>e \<in> set (cache_entries empty_db).
              cache_key_matches consultation_calc 3 1 e \<longrightarrow> \<not> usable (now utc_env) e)"
    by simp
  have c: "True \<longrightarrow> (\<forall>e \<in> set (cache_entries stale_db).
              cache_key_matches consultation_calc 5 1 e \<longrightarrow> \<not> usable (now utc_env) e)"
    by (simp add: stale_db_def empty_db_def cached_def usable_def utc_env_def)
  from inverted_range_is_empty [OF a(1) b] inverted_range_is_empty [OF a(2) c]
  show ?thesis by auto
qed

section \<open>Cache hits\<close>

lemma cache_key_matches_iff:
  "cache_key_matches c sd n e =
     (cache_key e = (user_id (calc_organizer c), et_id (calc_event_type c), sd,
                     timezone_name c, n))"
  by (auto simp: cache_key_matches_def cache_key_def)

lemma distinct_same_key:
  assumes "distinct (map f xs)" "x \<in> set xs" "y \<in> set xs" "f x = f y"
  shows "x = y"
  using assms by (meson distinct_map inj_onD)

lemma distinct_filter_key:
  assumes "distinct (map f xs)"
  shows "length (filter (\<lambda>x. f x = k \<and> P x) xs) \<le> 1"
  using assms
proof (induction xs)
  case Nil
  then show ?case by simp
next
  case (Cons x xs)
  show ?case
  proof (cases "f x = k \<and> P x")
    case True
    with Cons.prems have "\<forall>y \<in> set xs. f y \<noteq> k" by (metis distinct.simps(2) image_eqI list.simps(9) set_map)
    then have "filter (\<lambda>x. f x = k \<and> P x) xs = []" by (simp add: filter_empty_conv)
    with True show ?thesis by simp
  next
    case False
    with Cons show ?thesis by auto
  qed
qed

lemma usable_rows_at_most_one:
  assumes "distinct (map cache_key (cache_entries db))"
  shows "length (filter (\<lambda>e. cache_key_matches c sd n e \<and> usable t e) (cache_entries db)) \<le> 1"
  unfolding cache_key_matches_iff by (rule distinct_filter_key [OF assms])

text \<open>
  One row per key is kept by both functions that write the cache table.
\<close>

lemma map_cache_key_update:
  assumes "\<And>e. cache_key (f e) = cache_key e"
  shows "map cache_key (map f es) = map cache_key es"
  using assms by (induction es) simp_all

lemma cache_write_keeps_keys_distinct:
  assumes "distinct (map cache_key (cache_entries db))"
  shows "distinct (map cache_key
           (cache_entries (cache_availability_result env db c sd ed n res t)))"
proof (cases "filter (cache_key_matches c sd n) (cache_entries db)")
  case Nil
  then have "\<forall>e \<in> set (cache_entries db). \<not> cache_key_matches c sd n e"
    by (simp add: filter_empty_conv)
  then have "(user_id (calc_organizer c), et_id (calc_event_type c), sd, timezone_name c, n)
               \<notin> cache_key ` set (cache_entries db)"
    by (auto simp: cache_key_matches_iff)
  with assms Nil show ?thesis
    by (simp add: cache_availability_result_def Let_def cache_key_def)
next
  case (Cons e es)
  note found = this
  show ?thesis
  proof (cases es)
    case Nil
    have "cache_entries (cache_availability_result env db c sd ed n res t)
            = map (\<lambda>e. if cache_key_matches c sd n e
                          then e\<lparr>available_slots := slots res, computed_at := now_done env,
                                 expires_at := now_done env
                                   + (case availability_cache_timeout env of
                                        None \<Rightarrow> 3600 | Some t \<Rightarrow> t),
                                 is_dirty := False, computation_time_ms := t\<rparr>
                          else e) (cache_entries db)"
      using found Nil by (simp add: cache_availability_result_def Let_def)
    moreover have "map cache_key (map (\<lambda>e. if cache_key_matches c sd n e
                          then e\<lparr>available_slots := slots res, computed_at := now_done env,
                                 expires_at := now_done env
                                   + (case availability_cache_timeout env of
                                        None \<Rightarrow> 3600 | Some t \<Rightarrow> t),
                                 is_dirty := False, computation_time_ms := t\<rparr>
                          else e) (cache_entries db)) = map cache_key (cache_entries db)"
      by (rule map_cache_key_update) (simp add: cache_key_def)
    ultimately show ?thesis using assms by (simp only:)
  next
    case (Cons a as)
    with found assms show ?thesis
      by (simp add: cache_availability_result_def Let_def)
  qed
qed

lemma invalidation_keeps_keys_distinct:
  assumes "distinct (map cache_key (cache_entries db))"
  shows "distinct (map cache_key
           (cache_entries (fst (invalidate_availability_cache db org ds de))))"
proof -
  have "cache_entries (fst (invalidate_availability_cache db org ds de))
          = map (\<lambda>e. if invalidation_selects org ds de e
                      then e\<lparr>is_dirty := True\<rparr> else e) (cache_entries db)"
    by (simp add: invalidate_availability_cache_def Let_def)
  moreover have "map cache_key (map (\<lambda>e. if invalidation_selects org ds de e
                                  then e\<lparr>is_dirty := True\<rparr> else e) (cache_entries db))
          = map cache_key (cache_entries db)"
    by (rule map_cache_key_update) (simp add: cache_key_def)
  ultimately show ?thesis using assms by (simp only:)
qed


lemma get_available_slots_cached_miss:
  assumes "get_cached_availability env db c start_date end_date n = Inr None"
      and "calculate_availability env db c start_date end_date n = Some x"
  shows "\<exists>r db'. get_available_slots env db c start_date end_date n True = Some (r, db')
           \<and> cache_hit r = False
           \<and> map_option (\<lambda>(r', _). slots r')
                 (get_available_slots env db c start_date end_date n False) = Some (slots r)
           \<and> (case x of
                  Inl e \<Rightarrow> r = error_result env e True \<and> db' = db
                | Inr computed \<Rightarrow>
                    r = \<lparr>slots = apply_recurring_exceptions db c computed start_date end_date,
                              total_slots = length (apply_recurring_exceptions db c computed
                                                      start_date end_date),
                              cache_hit = False, error = None,
                              pm_computation_time_ms = (now_done env - now env) * 1000,
                              pm_cache_used = True, pm_cached_at = None\<rparr>
                    \<and> db' = cache_availability_result env db c start_date end_date n r
                             ((now_done env - now env) * 1000))"
  using assms
  by (cases x)
     (simp_all add: get_available_slots_def error_result_def apply_recurring_logic_def Let_def)

text \<open>
  Claim C1: in a table with one row per key, a query with the cache on returns, and
  reports a cache hit exactly when the row of its key is usable (not dirty, and the
  current time strictly before \<open>expires_at\<close>); a hit serves the slots of that row and
  leaves the tables alone; a miss computes: its result is built from the slots of
  \<open>_calculate_availability\<close> (for one bookable date, the available intervals of the
  time grid) after the exceptions, and is written back to the cache, or it is the error
  result of the exception caught; and a clean row whose \<open>expires_at\<close> has passed
  gives a miss.
\<close>

theorem cache_hit_iff_usable:
  assumes "distinct (map cache_key (cache_entries db))"
  shows "\<exists>r db'. get_available_slots env db c start_date end_date n True = Some (r, db')
           \<and> (cache_hit r =
                (\<exists>e \<in> set (cache_entries db).
                   cache_key_matches c start_date n e \<and> usable (now env) e))
           \<and> (cache_hit r \<longrightarrow>
                db' = db
                \<and> (\<exists>e \<in> set (cache_entries db).
                      cache_key_matches c start_date n e \<and> usable (now env) e
                      \<and> slots r = available_slots e))
           \<and> (\<not> cache_hit r \<longrightarrow>
                map_option (\<lambda>(r', _). slots r')
                  (get_available_slots env db c start_date end_date n False) = Some (slots r))
           \<and> (\<not> cache_hit r \<longrightarrow>
                (\<exists>x. calculate_availability env db c start_date end_date n = Some x
                   \<and> (case x of
                        Inl e \<Rightarrow> r = error_result env e True \<and> db' = db
                      | Inr computed \<Rightarrow>
                          r = \<lparr>slots = apply_recurring_exceptions db c computed start_date end_date,
                              total_slots = length (apply_recurring_exceptions db c computed
                                                      start_date end_date),
                              cache_hit = False, error = None,
                              pm_computation_time_ms = (now_done env - now env) * 1000,
                              pm_cache_used = True, pm_cached_at = None\<rparr>
                          \<and> db' = cache_availability_result env db c start_date end_date n r
                                   ((now_done env - now env) * 1000))))
           \<and> (\<not> cache_hit r \<and> end_date = start_date \<and> start_date < max_day
                \<and> can_book_on_date (calc_event_type c) start_date
                \<and> hour_ok (getattr_default (reasonable_hours_start (calc_organizer c)) 9)
                \<and> hour_ok (getattr_default (reasonable_hours_end (calc_organizer c)) 17)
                \<and> tzdb env (timezone_name c) = Some tz
                \<and> 0 < or_default (slot_interval_minutes (calc_event_type c)) 30
                \<and> grid_in_range
                      (localize tz (combine start_date
                         (getattr_default (reasonable_hours_start (calc_organizer c)) 9)))
                      (localize tz (combine start_date
                         (getattr_default (reasonable_hours_end (calc_organizer c)) 17)))
                      (duration (calc_event_type c))
                      (or_default (slot_interval_minutes (calc_event_type c)) 30)
                \<longrightarrow> slots r = apply_recurring_exceptions db c
                      (map (\<lambda>(s, e). make_slot c s e)
                         (filter (\<lambda>(s, e). is_slot_available db c s e n)
                            (time_grid
                               (localize tz (combine start_date
                                  (getattr_default (reasonable_hours_start (calc_organizer c)) 9)))
                               (localize tz (combine start_date
                                  (getattr_default (reasonable_hours_end (calc_organizer c)) 17)))
                               (duration (calc_event_type c))
                               (or_default (slot_interval_minutes (calc_event_type c)) 30))))
                      start_date start_date)
           \<and> (\<forall>e \<in> set (cache_entries db).
                cache_key_matches c start_date n e \<and> is_dirty e = False
                  \<and> expires_at e \<le> now env
                \<longrightarrow> \<not> cache_hit r)"
proof -
  let ?F = "filter (\<lambda>e. cache_key_matches c start_date n e \<and> usable (now env) e)
              (cache_entries db)"
  from usable_rows_at_most_one [OF assms(1)] have le: "length ?F \<le> 1" .
  show ?thesis
  proof (cases ?F)
    case Nil
    then have none: "\<forall>e \<in> set (cache_entries db).
                       cache_key_matches c start_date n e \<longrightarrow> \<not> usable (now env) e"
      by (auto simp: filter_empty_conv)
    from calculate_availability_returns
    obtain x where x: "calculate_availability env db c start_date end_date n = Some x" by blast
    from get_available_slots_cached_miss [OF get_cached_availability_miss [OF none] x]
    obtain r db' where r: "get_available_slots env db c start_date end_date n True = Some (r, db')"
      "cache_hit r = False"
      "map_option (\<lambda>(r', _). slots r') (get_available_slots env db c start_date end_date n False)
         = Some (slots r)"
      "case x of
         Inl e \<Rightarrow> r = error_result env e True \<and> db' = db
       | Inr computed \<Rightarrow>
           r = \<lparr>slots = apply_recurring_exceptions db c computed start_date end_date,
                              total_slots = length (apply_recurring_exceptions db c computed
                                                      start_date end_date),
                              cache_hit = False, error = None,
                              pm_computation_time_ms = (now_done env - now env) * 1000,
                              pm_cache_used = True, pm_cached_at = None\<rparr>
           \<and> db' = cache_availability_result env db c start_date end_date n r
                    ((now_done env - now env) * 1000)"
      by blast
    from x r(4) have miss: "(\<exists>x. calculate_availability env db c start_date end_date n = Some x
                   \<and> (case x of
                        Inl e \<Rightarrow> r = error_result env e True \<and> db' = db
                      | Inr computed \<Rightarrow>
                          r = \<lparr>slots = apply_recurring_exceptions db c computed start_date end_date,
                              total_slots = length (apply_recurring_exceptions db c computed
                                                      start_date end_date),
                              cache_hit = False, error = None,
                              pm_computation_time_ms = (now_done env - now env) * 1000,
                              pm_cache_used = True, pm_cached_at = None\<rparr>
                          \<and> db' = cache_availability_result env db c start_date end_date n r
                                   ((now_done env - now env) * 1000)))"
      by blast
    have oneday: "(\<not> cache_hit r \<and> end_date = start_date \<and> start_date < max_day
                \<and> can_book_on_date (calc_event_type c) start_date
                \<and> hour_ok (getattr_default (reasonable_hours_start (calc_organizer c)) 9)
                \<and> hour_ok (getattr_default (reasonable_hours_end (calc_organizer c)) 17)
                \<and> tzdb env (timezone_name c) = Some tz
                \<and> 0 < or_default (slot_interval_minutes (calc_event_type c)) 30
                \<and> grid_in_range
                      (localize tz (combine start_date
                         (getattr_default (reasonable_hours_start (calc_organizer c)) 9)))
                      (localize tz (combine start_date
                         (getattr_default (reasonable_hours_end (calc_organizer c)) 17)))
                      (duration (calc_event_type c))
                      (or_default (slot_interval_minutes (calc_event_type c)) 30)
                \<longrightarrow> slots r = apply_recurring_exceptions db c
                      (map (\<lambda>(s, e). make_slot c s e)
                         (filter (\<lambda>(s, e). is_slot_available db c s e n)
                            (time_grid
                               (localize tz (combine start_date
                                  (getattr_default (reasonable_hours_start (calc_organizer c)) 9)))
                               (localize tz (combine start_date
                                  (getattr_default (reasonable_hours_end (calc_organizer c)) 17)))
                               (duration (calc_event_type c))
                               (or_default (slot_interval_minutes (calc_event_type c)) 30))))
                      start_date start_date)"
    proof (intro impI, elim conjE)
      assume a: "end_date = start_date" "start_date < max_day"
        "can_book_on_date (calc_event_type c) start_date"
        "hour_ok (getattr_default (reasonable_hours_start (calc_organizer c)) 9)"
        "hour_ok (getattr_default (reasonable_hours_end (calc_organizer c)) 17)"
        "tzdb env (timezone_name c) = Some tz"
        "0 < or_default (slot_interval_minutes (calc_event_type c)) 30"
        "grid_in_range
                      (localize tz (combine start_date
                         (getattr_default (reasonable_hours_start (calc_organizer c)) 9)))
                      (localize tz (combine start_date
                         (getattr_default (reasonable_hours_end (calc_organizer c)) 17)))
                      (duration (calc_event_type c))
                      (or_default (slot_interval_minutes (calc_event_type c)) 30)"
      from x a(1) have "calculate_availability env db c start_date start_date n = Some x"
        by simp
      with a(2,3) have "get_daily_slots env db c start_date n = Some x"
        by (simp add: calculate_availability_single_day)
      with get_daily_slots_grid [OF a(4-8), of db n]
      have "x = Inr (map (\<lambda>(s, e). make_slot c s e)
                         (filter (\<lambda>(s, e). is_slot_available db c s e n)
                            (time_grid
                               (localize tz (combine start_date
                                  (getattr_default (reasonable_hours_start (calc_organizer c)) 9)))
                               (localize tz (combine start_date
                                  (getattr_default (reasonable_hours_end (calc_organizer c)) 17)))
                               (duration (calc_event_type c))
                               (or_default (slot_interval_minutes (calc_event_type c)) 30))))"
        by simp
      with r(4) a(1) show "slots r = apply_recurring_exceptions db c
                      (map (\<lambda>(s, e). make_slot c s e)
                         (filter (\<lambda>(s, e). is_slot_available db c s e n)
                            (time_grid
                               (localize tz (combine start_date
                                  (getattr_default (reasonable_hours_start (calc_organizer c)) 9)))
                               (localize tz (combine start_date
                                  (getattr_default (reasonable_hours_end (calc_organizer c)) 17)))
                               (duration (calc_event_type c))
                               (or_default (slot_interval_minutes (calc_event_type c)) 30))))
                      start_date start_date"
        by simp
    qed
    from r(1,2,3) none miss oneday show ?thesis by auto
  next
    case (Cons e es)
    with le have F: "?F = [e]" by simp
    then have "e \<in> set ?F" by simp
    then have e: "e \<in> set (cache_entries db)" "cache_key_matches c start_date n e"
      "usable (now env) e" by simp_all
    let ?r = "\<lparr>slots = available_slots e, total_slots = length (available_slots e),
               cache_hit = True, error = None,
               pm_computation_time_ms = computation_time_ms e,
               pm_cache_used = True, pm_cached_at = Some (computed_at e)\<rparr>"
    have hit: "get_available_slots env db c start_date end_date n True = Some (?r, db)"
      by (simp add: get_available_slots_def get_cached_availability_usable F)
    have only: "\<forall>e' \<in> set (cache_entries db).
                cache_key_matches c start_date n e' \<and> is_dirty e' = False
                  \<and> expires_at e' \<le> now env \<longrightarrow> False"
    proof (intro ballI impI)
      fix e' assume e': "e' \<in> set (cache_entries db)"
        and k: "cache_key_matches c start_date n e' \<and> is_dirty e' = False
                  \<and> expires_at e' \<le> now env"
      from k e(2) have "cache_key e' = cache_key e" by (simp add: cache_key_matches_iff)
      from distinct_same_key [OF assms(1) e' e(1) this] have "e' = e" .
      with k e(3) show False by (simp add: usable_def)
    qed
    from hit e only show ?thesis by auto
  qed
qed

text \<open>
  A day of consultations in UTC without bookings: the 16 half hours from 09:00.
\<close>

lemma consultation_day_slots:
  assumes "0 \<le> d" "d \<le> 10000" "bookings db = []"
  shows "get_daily_slots utc_env db consultation_calc d 1
           = Some (Inr (map (\<lambda>k. half_hour_slot d (int k)) [0 ..< 16]))"
proof -
  have facts:
    "getattr_default (reasonable_hours_start (calc_organizer consultation_calc)) 9 = 9"
    "getattr_default (reasonable_hours_end (calc_organizer consultation_calc)) 17 = 17"
    "tzdb utc_env (timezone_name consultation_calc) = Some (\<lambda>_. 0)"
    "or_default (slot_interval_minutes (calc_event_type consultation_calc)) 30 = 30"
    "duration (calc_event_type consultation_calc) = 30"
    "max_attendees (calc_event_type consultation_calc) = 1"
    by (simp_all add: consultation_calc_def consultation_def alice_def utc_env_def
          getattr_default_def or_default_def)
  have count: "length (time_grid (localize (\<lambda>_. 0) (combine d 9))
                         (localize (\<lambda>_. 0) (combine d 17)) 30 30) = 16"
    by (simp add: time_grid_length_count grid_count_def instant_def localize_def combine_def)
  have slot: "\<And>k. make_slot consultation_calc
                    (plus_minutes (localize (\<lambda>_. 0) (combine d 9)) (int k * 30))
                    (plus_minutes (localize (\<lambda>_. 0) (combine d 9)) (int k * 30 + 30))
                = half_hour_slot d (int k)"
    by (simp add: make_slot_def plus_minutes_def utc_time_def half_hour_slot_def
          localize_def combine_def facts)
  have grid: "map (\<lambda>(s, e). make_slot consultation_calc s e)
                (time_grid (localize (\<lambda>_. 0) (combine d 9))
                   (localize (\<lambda>_. 0) (combine d 17)) 30 30)
              = map (\<lambda>k. half_hour_slot d (int k)) [0 ..< 16]"
    using count unfolding time_grid_def
    by (simp only: length_map length_upt diff_zero map_map comp_def split_conv slot)
  from get_daily_slots_no_bookings
         [where c = consultation_calc and env = utc_env and tz = "\<lambda>_. 0"
            and db = db and n = 1 and d = d]
       utc_day_in_range [of d 30] assms
  have "get_daily_slots utc_env db consultation_calc d 1
          = Some (Inr (map (\<lambda>(s, e). make_slot consultation_calc s e)
                        (time_grid (localize (\<lambda>_. 0) (combine d 9))
                           (localize (\<lambda>_. 0) (combine d 17)) 30 30)))"
    by (simp add: facts hour_ok_def)
  then show ?thesis by (simp only: grid)
qed

text \<open>
  Scenario E: Alice's day 5 is served from the row that expires at 4600 when the clock
  reads 1000; when the row expired at 900, the 16 half hours of the day are computed
  and written over the row, which is fresh again until 4602.
\<close>

theorem cache_hit_iff_usable_witness:
  "distinct (map cache_key (cache_entries cache_db))
   \<and> map_option (\<lambda>(r, _). (cache_hit r, slots r))
       (get_available_slots utc_env cache_db consultation_calc 5 5 1 True)
       = Some (True, [class_slot 5])
   \<and> map_option (\<lambda>(r, _). cache_hit r)
       (get_available_slots utc_env stale_db consultation_calc 5 5 1 True) = Some False
   \<and> map_option (\<lambda>(r, _). slots r)
       (get_available_slots utc_env stale_db consultation_calc 5 5 1 True)
       = map_option (\<lambda>(r, _). slots r)
           (get_available_slots utc_env stale_db consultation_calc 5 5 1 False)
   \<and> map_option (\<lambda>(r, db'). (slots r, cache_entries db'))
       (get_available_slots utc_env stale_db consultation_calc 5 5 1 True)
       = Some (map (\<lambda>k. half_hour_slot 5 (int k)) [0 ..< 16],
               [\<lparr>c_organizer = 1, c_event_type = 1, c_date = 5, c_timezone_name = ''UTC'',
                 c_attendee_count = 1,
                 available_slots = map (\<lambda>k. half_hour_slot 5 (int k)) [0 ..< 16],
                 computed_at = 1002, expires_at = 4602, is_dirty = False,
                 computation_time_ms = 2000\<rparr>])"
proof -
  have d1: "distinct (map cache_key (cache_entries cache_db))"
    by (simp add: cache_db_def empty_db_def cached_def cache_key_def)
  have d2: "distinct (map cache_key (cache_entries stale_db))"
    by (simp add: stale_db_def empty_db_def)
  have fresh: "\<And>e. (e \<in> set (cache_entries cache_db)
                   \<and> cache_key_matches consultation_calc 5 1 e \<and> usable (now utc_env) e)
                 = (e = cached 1 5 4600)"
    by (auto simp: cache_db_def empty_db_def cached_def cache_key_matches_def usable_def
          utc_env_def consultation_calc_def consultation_def alice_def)
  have stale: "\<And>e. \<not> (e \<in> set (cache_entries stale_db)
                   \<and> cache_key_matches consultation_calc 5 1 e \<and> usable (now utc_env) e)"
    by (auto simp: stale_db_def empty_db_def cached_def usable_def utc_env_def)
  from cache_hit_iff_usable
         [OF d1, where env = utc_env and c = consultation_calc and start_date = 5
            and end_date = 5 and n = 1]
  obtain r db' where r: "get_available_slots utc_env cache_db consultation_calc 5 5 1 True = Some (r, db')"
    "cache_hit r = (\<exists>e \<in> set (cache_entries cache_db).
                   cache_key_matches consultation_calc 5 1 e \<and> usable (now utc_env) e)"
    "cache_hit r \<longrightarrow> (\<exists>e \<in> set (cache_entries cache_db).
                      cache_key_matches consultation_calc 5 1 e \<and> usable (now utc_env) e
                      \<and> slots r = available_slots e)"
    by blast
  from r(2) fresh have h: "cache_hit r" by blast
  with r(3) obtain e where "e \<in> set (cache_entries cache_db)
      \<and> cache_key_matches consultation_calc 5 1 e \<and> usable (now utc_env) e"
    and "slots r = available_slots e" by blast
  with fresh [of e] have "slots r = available_slots (cached 1 5 4600)" by simp
  then have sl: "slots r = [class_slot 5]" by (simp add: cached_def)
  have computed: "calculate_availability utc_env stale_db consultation_calc 5 5 1
                    = Some (Inr (map (\<lambda>k. half_hour_slot 5 (int k)) [0 ..< 16]))"
    using consultation_day_slots [of 5 stale_db]
    by (simp add: calculate_availability_single_day max_day_def stale_db_def empty_db_def
          consultation_calc_def consultation_def)
  from cache_hit_iff_usable
         [OF d2, where env = utc_env and c = consultation_calc and start_date = 5
            and end_date = 5 and n = 1]
  obtain q db'' where q: "get_available_slots utc_env stale_db consultation_calc 5 5 1 True = Some (q, db'')"
    "cache_hit q = (\<exists>e \<in> set (cache_entries stale_db).
                   cache_key_matches consultation_calc 5 1 e \<and> usable (now utc_env) e)"
    "\<not> cache_hit q \<longrightarrow>
                map_option (\<lambda>(r', _). slots r')
                  (get_available_slots utc_env stale_db consultation_calc 5 5 1 False) = Some (slots q)"
    "\<not> cache_hit q \<longrightarrow>
       (\<exists>x. calculate_availability utc_env stale_db consultation_calc 5 5 1 = Some x
          \<and> (case x of
                Inl e \<Rightarrow> q = error_result utc_env e True \<and> db'' = stale_db
              | Inr computed \<Rightarrow>
                  q = \<lparr>slots = apply_recurring_exceptions stale_db consultation_calc computed 5 5,
                        total_slots = length (apply_recurring_exceptions stale_db
                                                consultation_calc computed 5 5),
                        cache_hit = False, error = None,
                        pm_computation_time_ms = (now_done utc_env - now utc_env) * 1000,
                        pm_cache_used = True, pm_cached_at = None\<rparr>
                  \<and> db'' = cache_availability_result utc_env stale_db consultation_calc 5 5 1 q
                            ((now_done utc_env - now utc_env) * 1000)))"
    by blast
  from q(2) stale have m: "\<not> cache_hit q" by blast
  with q(3) have "map_option (\<lambda>(r', _). slots r')
                  (get_available_slots utc_env stale_db consultation_calc 5 5 1 False) = Some (slots q)"
    by blast
  then have same: "map_option (\<lambda>(r, _). slots r)
       (get_available_slots utc_env stale_db consultation_calc 5 5 1 True)
       = map_option (\<lambda>(r, _). slots r)
           (get_available_slots utc_env stale_db consultation_calc 5 5 1 False)"
    by (simp only: q(1) option.map prod.case)
  have none: "recurrence_type (calc_event_type consultation_calc) = ''none''"
    by (simp add: consultation_calc_def consultation_def)
  from m q(4) computed
  have qr: "slots q = map (\<lambda>k. half_hour_slot 5 (int k)) [0 ..< 16]"
    and qdb: "db'' = cache_availability_result utc_env stale_db consultation_calc 5 5 1 q
                       ((now_done utc_env - now utc_env) * 1000)"
    by (auto simp: apply_recurring_exceptions_def none)
  have written: "cache_entries db'' =
               [\<lparr>c_organizer = 1, c_event_type = 1, c_date = 5, c_timezone_name = ''UTC'',
                 c_attendee_count = 1,
                 available_slots = map (\<lambda>k. half_hour_slot 5 (int k)) [0 ..< 16],
                 computed_at = 1002, expires_at = 4602, is_dirty = False,
                 computation_time_ms = 2000\<rparr>]"
    unfolding qdb
    by (simp add: cache_availability_result_def cache_key_matches_def stale_db_def empty_db_def
          cached_def consultation_calc_def consultation_def alice_def utc_env_def Let_def qr
          del: upt_Suc)
  have hit: "map_option (\<lambda>(r, _). (cache_hit r, slots r))
       (get_available_slots utc_env cache_db consultation_calc 5 5 1 True)
       = Some (True, [class_slot 5])"
    using r(1) h sl by simp
  have miss: "map_option (\<lambda>(r, _). cache_hit r)
       (get_available_slots utc_env stale_db consultation_calc 5 5 1 True) = Some False"
    using q(1) m by simp
  have recomputed: "map_option (\<lambda>(r, db'). (slots r, cache_entries db'))
       (get_available_slots utc_env stale_db consultation_calc 5 5 1 True)
       = Some (map (\<lambda>k. half_hour_slot 5 (int k)) [0 ..< 16],
               [\<lparr>c_organizer = 1, c_event_type = 1, c_date = 5, c_timezone_name = ''UTC'',
                 c_attendee_count = 1,
                 available_slots = map (\<lambda>k. half_hour_slot 5 (int k)) [0 ..< 16],
                 computed_at = 1002, expires_at = 4602, is_dirty = False,
                 computation_time_ms = 2000\<rparr>])"
    by (simp only: q(1) option.map prod.case qr written)
  from d1 hit miss same recomputed show ?thesis by blast
qed

end
